theory Spec2Isabelle
  imports Main
begin

section \<open>Strings\<close>

text \<open>
  A TypeScript string is a sequence of UTF-16 code units, and every operation of the
  sources used here (\<^verbatim>\<open>trim\<close>, \<^verbatim>\<open>split\<close>, \<^verbatim>\<open>indexOf\<close>, \<^verbatim>\<open>substring\<close>, the regular
  expression classes) works on code units. A string is therefore a list of code units,
  each a natural number; \<open>str\<close> turns a literal into its code units.
\<close>

type_synonym jsstring = "nat list"

definition str :: "string \<Rightarrow> jsstring" where
  "str s = map of_char s"

text \<open>
  The code units that \<^verbatim>\<open>String.prototype.trim\<close> strips and that \<^verbatim>\<open>\s\<close> matches in a
  regular expression (ECMAScript WhiteSpace and LineTerminator): TAB, LF, VT, FF, CR,
  SPACE, NBSP, U+1680, U+2000 to U+200A, U+2028, U+2029, U+202F, U+205F, U+3000, U+FEFF.
\<close>

definition isWhiteSpace :: "nat \<Rightarrow> bool" where
  "isWhiteSpace c \<longleftrightarrow>
     c = 9 \<or> c = 10 \<or> c = 11 \<or> c = 12 \<or> c = 13 \<or> c = 32 \<or> c = 160 \<or> c = 5760 \<or>
     (8192 \<le> c \<and> c \<le> 8202) \<or> c = 8232 \<or> c = 8233 \<or> c = 8239 \<or> c = 8287 \<or>
     c = 12288 \<or> c = 65279"

definition trimStart :: "jsstring \<Rightarrow> jsstring" where
  "trimStart s = dropWhile isWhiteSpace s"

definition trimEnd :: "jsstring \<Rightarrow> jsstring" where
  "trimEnd s = rev (dropWhile isWhiteSpace (rev s))"

definition trim :: "jsstring \<Rightarrow> jsstring" where
  "trim s = trimEnd (trimStart s)"

text \<open>\<^verbatim>\<open>s.split(sep)\<close> for a separator of one code unit: never the empty array.\<close>

fun split :: "nat \<Rightarrow> jsstring \<Rightarrow> jsstring list" where
  "split sep [] = [[]]"
| "split sep (c # cs) =
     (if c = sep then [] # split sep cs
      else (case split sep cs of
              [] \<Rightarrow> [[c]]
            | l # ls \<Rightarrow> (c # l) # ls))"

text \<open>\<^verbatim>\<open>xs.join('\n')\<close> on an array of strings.\<close>

fun join :: "jsstring list \<Rightarrow> jsstring" where
  "join [] = []"
| "join [l] = l"
| "join (l # ls) = l @ 10 # join ls"

text \<open>\<^verbatim>\<open>xs.join(sep)\<close> in general.\<close>

fun joinWith :: "jsstring \<Rightarrow> jsstring list \<Rightarrow> jsstring" where
  "joinWith sep [] = []"
| "joinWith sep [l] = l"
| "joinWith sep (l # ls) = l @ sep @ joinWith sep ls"

section \<open>Numbers\<close>

text \<open>
  A Number of the language is a double. The sources do no arithmetic on the Numbers that
  reach the formatter or a message (the status code and the duration of a result, a
  timeout, a Number inside a JSON value): they test them for truth and turn them into
  text. The model keeps of a finite Number what \<^verbatim>\<open>Number::toString\<close> of ECMAScript reads
  from it: its sign and a decimal \<open>s\<close> times ten to the power \<open>e\<close>, namely the shortest
  decimal that denotes the Number (the one the fifth step of \<^verbatim>\<open>Number::toString\<close>
  selects; for a whole number of magnitude below \<open>2 ^ 53\<close> it is the number itself). The
  Number is zero when \<open>s\<close> is, and the sign then tells \<^verbatim>\<open>-0\<close> from \<^verbatim>\<open>0\<close>. The flag of
  \<open>Infinity\<close> and of \<open>Finite\<close> is true for a negative Number.
\<close>

datatype jsnumber = NaN | Infinity bool | Finite bool nat int

text \<open>
  The Number of a whole number of magnitude below \<open>2 ^ 53\<close>: a constant of the code, a
  status code, a difference of two readings of the clock.
\<close>

definition numberOfInt :: "int \<Rightarrow> jsnumber" where
  "numberOfInt n = Finite (n < 0) (nat (abs n)) 0"

text \<open>\<^verbatim>\<open>ToBoolean\<close> on a Number: false for \<^verbatim>\<open>0\<close>, \<^verbatim>\<open>-0\<close> and \<^verbatim>\<open>NaN\<close>.\<close>

fun numberTruthy :: "jsnumber \<Rightarrow> bool" where
  "numberTruthy NaN = False"
| "numberTruthy (Infinity negative) = True"
| "numberTruthy (Finite negative s e) = (s \<noteq> 0)"

section \<open>The data of the executor (execution/queryExecutor.ts, connections/connectionTypes.ts)\<close>

text \<open>
  The records of the executor come before those of the parser, so that the field names
  the two share (\<^verbatim>\<open>method\<close>, \<^verbatim>\<open>path\<close>, \<^verbatim>\<open>body\<close>) stand for the parser's fields when
  they are written without a qualifier.

  The parts of a \<^verbatim>\<open>URL\<close> object that the executor reads, and the options it hands to
  \<^verbatim>\<open>http.request\<close>. The port is the text of the URL's port or a default number; the agent
  is present for an encrypted transport.
\<close>

record ParsedUrl =
  protocol :: jsstring
  hostname :: jsstring
  port :: jsstring
  pathname :: jsstring
  search :: jsstring

datatype portValue = PortText jsstring | PortNumber int

record Agent =
  rejectUnauthorized :: bool
  ca :: "jsstring option"

record RequestOptions =
  "method" :: jsstring
  hostname :: jsstring
  port :: portValue
  path :: jsstring
  headers :: "(jsstring \<times> jsstring) list"
  timeout :: jsnumber
  agent :: "Agent option"

text \<open>
  \<^verbatim>\<open>AuthType\<close> is \<^verbatim>\<open>'basic' | 'aws-iam'\<close>; a connection is read from the settings, so
  the model keeps any other text as a third case (the code then sends no credentials).
  The field \<^verbatim>\<open>id\<close> of a connection is \<open>id'\<close> here.
\<close>

datatype AuthType = Basic | AwsIam | OtherAuth jsstring

record StoredConnection =
  id' :: jsstring
  name :: jsstring
  url :: jsstring
  authType :: AuthType
  username :: "jsstring option"
  awsRegion :: "jsstring option"
  awsProfile :: "jsstring option"
  sslVerify :: bool
  caCertPath :: "jsstring option"

record AwsKeys =
  accessKeyId :: "jsstring option"
  secretAccessKey :: "jsstring option"

record ExecuteOptions =
  connection :: StoredConnection
  password :: "jsstring option"
  awsCredentials :: "AwsKeys option"
  timeout :: "jsnumber option"

section \<open>The result of a query (execution/queryExecutor.ts)\<close>

text \<open>
  The value of \<^verbatim>\<open>JSON.parse\<close>: \<^verbatim>\<open>null\<close>, a boolean, a Number, a string, an array, or
  an object, which is the list of its properties in enumeration order.
\<close>

datatype json =
    JNull
  | JBool bool
  | JNumber jsnumber
  | JString jsstring
  | JArray "json list"
  | JObject "(jsstring \<times> json) list"

text \<open>A response header is one string or several (\<^verbatim>\<open>string | string[] | undefined\<close>).\<close>

datatype headerValue = NoHeader | OneHeader jsstring | ManyHeaders "jsstring list"

text \<open>An optional field is \<open>None\<close> when it is absent (\<^verbatim>\<open>undefined\<close>).\<close>

record QueryResult =
  success :: bool
  statusCode :: jsnumber
  statusMessage :: jsstring
  body :: jsstring
  json :: "json option"
  headers :: "(jsstring \<times> headerValue) list"
  durationMs :: jsnumber
  error :: "jsstring option"

section \<open>The request parser (language/parser.ts)\<close>

datatype HttpMethod = GET | POST | PUT | DELETE | HEAD | PATCH

fun methodName :: "HttpMethod \<Rightarrow> jsstring" where
  "methodName GET = str ''GET''"
| "methodName POST = str ''POST''"
| "methodName PUT = str ''PUT''"
| "methodName DELETE = str ''DELETE''"
| "methodName HEAD = str ''HEAD''"
| "methodName PATCH = str ''PATCH''"

record ParsedRequest =
  "method" :: HttpMethod
  path :: jsstring
  body :: "jsstring option"
  startLine :: int
  endLine :: int

record ParseError =
  message :: jsstring
  line :: int

record ParseResult =
  requests :: "ParsedRequest list"
  errors :: "ParseError list"

subsection \<open>The request-line pattern\<close>

text \<open>
  \<^verbatim>\<open>REQUEST_LINE_PATTERN = /^(GET|POST|PUT|DELETE|HEAD|PATCH)\s+(\S+)\s*$/i\<close>.
  Under the \<^verbatim>\<open>i\<close> flag (without \<^verbatim>\<open>u\<close>) a code unit matches an upper-case ASCII letter
  of the pattern when its canonical form is that letter: the letter itself or its
  lower-case ASCII form (a code unit above 127 is never mapped to an ASCII letter).
\<close>

definition canonicalize :: "nat \<Rightarrow> nat" where
  "canonicalize c = (if 97 \<le> c \<and> c \<le> 122 then c - 32 else c)"

text \<open>Match a literal of the pattern at the front of the input; the rest on success.\<close>

fun matchLiteral :: "jsstring \<Rightarrow> jsstring \<Rightarrow> jsstring option" where
  "matchLiteral [] s = Some s"
| "matchLiteral (p # ps) [] = None"
| "matchLiteral (p # ps) (c # cs) =
     (if canonicalize c = p then matchLiteral ps cs else None)"

text \<open>
  \<^verbatim>\<open>\s+(\S+)\s*$\<close> on what follows the method. The two classes are complementary, so
  the greedy match is the only one: all the white space, then all that is not white
  space (group 2), then white space up to the end of the input.
\<close>

definition matchTail :: "jsstring \<Rightarrow> jsstring option" where
  "matchTail r =
     (let ws = takeWhile isWhiteSpace r;
          r1 = dropWhile isWhiteSpace r;
          p = takeWhile (\<lambda>c. \<not> isWhiteSpace c) r1;
          r2 = dropWhile (\<lambda>c. \<not> isWhiteSpace c) r1
      in if ws \<noteq> [] \<and> p \<noteq> [] \<and> dropWhile isWhiteSpace r2 = [] then Some p else None)"

text \<open>The alternatives of group 1 in the pattern's order, backtracking to the next one.\<close>

definition HTTP_METHODS :: "HttpMethod list" where
  "HTTP_METHODS = [GET, POST, PUT, DELETE, HEAD, PATCH]"

fun matchAlternatives :: "HttpMethod list \<Rightarrow> jsstring \<Rightarrow> (HttpMethod \<times> jsstring) option" where
  "matchAlternatives [] s = None"
| "matchAlternatives (m # ms) s =
     (case matchLiteral (methodName m) s of
        None \<Rightarrow> matchAlternatives ms s
      | Some r \<Rightarrow>
          (case matchTail r of
             None \<Rightarrow> matchAlternatives ms s
           | Some p \<Rightarrow> Some (m, p)))"

text \<open>
  The match result: group 1 upper-cased (which is the method of the alternative that
  matched) and group 2.
\<close>

definition matchRequestLinePattern :: "jsstring \<Rightarrow> (HttpMethod \<times> jsstring) option" where
  "matchRequestLinePattern s = matchAlternatives HTTP_METHODS s"

definition isRequestLine :: "jsstring \<Rightarrow> bool" where
  "isRequestLine l \<longleftrightarrow> matchRequestLinePattern (trim l) \<noteq> None"

definition isComment :: "jsstring \<Rightarrow> bool" where
  "isComment l \<longleftrightarrow> (case trim l of [] \<Rightarrow> False | c # _ \<Rightarrow> c = 35)"

definition isBlankLine :: "jsstring \<Rightarrow> bool" where
  "isBlankLine l \<longleftrightarrow> trim l = []"

definition parseRequestLine :: "jsstring \<Rightarrow> (HttpMethod \<times> jsstring) option" where
  "parseRequestLine l = matchRequestLinePattern (trim l)"

subsection \<open>Validation of a body\<close>

text \<open>
  \<^verbatim>\<open>JSON.parse\<close> belongs to the language runtime. It is a parameter \<open>jp\<close> of the model:
  \<open>jp s = Inl msg\<close> when \<^verbatim>\<open>JSON.parse(s)\<close> throws a \<^verbatim>\<open>SyntaxError\<close> with message
  \<open>msg\<close>, and \<open>jp s = Inr v\<close> when it returns the value \<open>v\<close>.
\<close>

datatype validation = Valid | Invalid jsstring

definition validateJsonBody :: "(jsstring \<Rightarrow> jsstring + 'v) \<Rightarrow> jsstring \<Rightarrow> validation" where
  "validateJsonBody jp b =
     (if trim b = [] then Valid
      else (case jp b of Inr v \<Rightarrow> Valid | Inl msg \<Rightarrow> Invalid msg))"

subsection \<open>The loop of parseOsdevFile\<close>

text \<open>
  The local variables of \<^verbatim>\<open>parseOsdevFile\<close>: the two result arrays, the open request
  (method, path, start line) and the body lines collected for it.
\<close>

record pstate = ParseResult +
  currentRequest :: "(HttpMethod \<times> jsstring \<times> int) option"
  bodyLines :: "jsstring list"

definition initial :: pstate where
  "initial = \<lparr>requests = [], errors = [], currentRequest = None, bodyLines = []\<rparr>"

definition finalizeRequest :: "(jsstring \<Rightarrow> jsstring + 'v) \<Rightarrow> int \<Rightarrow> pstate \<Rightarrow> pstate" where
  "finalizeRequest jp e st =
     (case currentRequest st of
        None \<Rightarrow> st\<lparr>currentRequest := None, bodyLines := []\<rparr>
      | Some (m, p, s) \<Rightarrow>
          (let b = trim (join (bodyLines st));
               request = \<lparr>method = m, path = p, body = None, startLine = s, endLine = e\<rparr>
           in if b \<noteq> [] then
                (case validateJsonBody jp b of
                   Valid \<Rightarrow>
                     st\<lparr>requests := requests st @ [request\<lparr>body := Some b\<rparr>],
                        currentRequest := None, bodyLines := []\<rparr>
                 | Invalid msg \<Rightarrow>
                     st\<lparr>requests := requests st @ [request\<lparr>body := Some b\<rparr>],
                        errors := errors st @
                          [\<lparr>message = str ''Invalid JSON body: '' @ msg, line = s + 1\<rparr>],
                        currentRequest := None, bodyLines := []\<rparr>)
              else
                st\<lparr>requests := requests st @ [request],
                   currentRequest := None, bodyLines := []\<rparr>))"

text \<open>One iteration of the \<^verbatim>\<open>for\<close> loop, at index \<open>i\<close> on line \<open>l\<close>.\<close>

definition step :: "(jsstring \<Rightarrow> jsstring + 'v) \<Rightarrow> int \<Rightarrow> jsstring \<Rightarrow> pstate \<Rightarrow> pstate" where
  "step jp i l st =
     (if isComment l then st
      else if isRequestLine l then
        (let st1 = (if currentRequest st \<noteq> None then finalizeRequest jp (i - 1) st else st)
         in case parseRequestLine l of
              None \<Rightarrow> st1
            | Some (m, p) \<Rightarrow> st1\<lparr>currentRequest := Some (m, p, i)\<rparr>)
      else if currentRequest st \<noteq> None then
        (if bodyLines st = [] \<and> isBlankLine l then st
         else st\<lparr>bodyLines := bodyLines st @ [l]\<rparr>)
      else st)"

fun parseLoop :: "(jsstring \<Rightarrow> jsstring + 'v) \<Rightarrow> int \<Rightarrow> jsstring list \<Rightarrow> pstate \<Rightarrow> pstate" where
  "parseLoop jp i [] st = st"
| "parseLoop jp i (l # ls) st = parseLoop jp (i + 1) ls (step jp i l st)"

text \<open>The loop over the lines and the finalisation of the last request.\<close>

definition parseLines :: "(jsstring \<Rightarrow> jsstring + 'v) \<Rightarrow> jsstring list \<Rightarrow> ParseResult" where
  "parseLines jp ls =
     (let st = parseLoop jp 0 ls initial;
          st' = (if currentRequest st \<noteq> None
                 then finalizeRequest jp (int (length ls) - 1) st else st)
      in \<lparr>requests = requests st', errors = errors st'\<rparr>)"

definition parseOsdevFile :: "(jsstring \<Rightarrow> jsstring + 'v) \<Rightarrow> jsstring \<Rightarrow> ParseResult" where
  "parseOsdevFile jp content = parseLines jp (split 10 content)"

subsection \<open>A JSON recogniser to run the parser on examples\<close>

text \<open>
  The theorems about the parser hold for every behaviour \<open>jp\<close> of \<^verbatim>\<open>JSON.parse\<close>. To run
  the parser on concrete documents, \<open>jsonCheck\<close> is one such behaviour: a recogniser
  written after the JSON grammar (ECMA-404, which \<^verbatim>\<open>JSON.parse\<close> implements) that
  returns no value. The message of the \<^verbatim>\<open>SyntaxError\<close> differs between engines;
  \<open>jsonCheck\<close> reports the fixed text \<^verbatim>\<open>Unexpected token\<close>.
\<close>

definition isJsonWs :: "nat \<Rightarrow> bool" where
  "isJsonWs c \<longleftrightarrow> c = 9 \<or> c = 10 \<or> c = 13 \<or> c = 32"

definition isDigit :: "nat \<Rightarrow> bool" where
  "isDigit c \<longleftrightarrow> 48 \<le> c \<and> c \<le> 57"

definition isHexDigit :: "nat \<Rightarrow> bool" where
  "isHexDigit c \<longleftrightarrow> isDigit c \<or> (65 \<le> c \<and> c \<le> 70) \<or> (97 \<le> c \<and> c \<le> 102)"

definition skipWs :: "jsstring \<Rightarrow> jsstring" where
  "skipWs s = dropWhile isJsonWs s"

text \<open>The characters of a string after its opening quote; the rest after the closing one.\<close>

fun jsonChars :: "jsstring \<Rightarrow> jsstring option" where
  "jsonChars [] = None"
| "jsonChars [c] = (if c = 34 then Some [] else None)"
| "jsonChars (c # e # es) =
     (if c = 34 then Some (e # es)
      else if c = 92 then
        (if e = 34 \<or> e = 92 \<or> e = 47 \<or> e = 98 \<or> e = 102 \<or> e = 110 \<or> e = 114 \<or> e = 116
         then jsonChars es
         else if e = 117 \<and> 4 \<le> length es \<and> list_all isHexDigit (take 4 es)
         then jsonChars (drop 4 es)
         else None)
      else if c < 32 then None
      else jsonChars (e # es))"

text \<open>A number: optional minus, integer part, optional fraction, optional exponent.\<close>

definition jsonNumber :: "jsstring \<Rightarrow> jsstring option" where
  "jsonNumber s =
     (let s1 = (case s of [] \<Rightarrow> [] | c # cs \<Rightarrow> if c = 45 then cs else s);
          s2 = (case s1 of
                  [] \<Rightarrow> None
                | d # ds \<Rightarrow> if d = 48 then Some ds
                            else if isDigit d then Some (dropWhile isDigit ds) else None);
          s3 = (case s2 of
                  None \<Rightarrow> None
                | Some [] \<Rightarrow> Some []
                | Some (c # cs) \<Rightarrow>
                    if c = 46 then
                      (case cs of
                         [] \<Rightarrow> None
                       | d # ds \<Rightarrow> if isDigit d then Some (dropWhile isDigit ds) else None)
                    else Some (c # cs))
      in case s3 of
           None \<Rightarrow> None
         | Some [] \<Rightarrow> Some []
         | Some (c # cs) \<Rightarrow>
             if c = 101 \<or> c = 69 then
               (let x = (case cs of [] \<Rightarrow> [] | g # gs \<Rightarrow> if g = 43 \<or> g = 45 then gs else cs)
                in case x of
                     [] \<Rightarrow> None
                   | d # ds \<Rightarrow> if isDigit d then Some (dropWhile isDigit ds) else None)
             else Some (c # cs))"

definition jsonKeyword :: "jsstring \<Rightarrow> jsstring \<Rightarrow> jsstring option" where
  "jsonKeyword k s = (if take (length k) s = k then Some (drop (length k) s) else None)"

text \<open>
  Values, the elements of a non-empty array and the members of a non-empty object. The
  first argument bounds the number of nested calls; \<open>jsonAccepts\<close> starts with twice the
  length of the text plus two.
\<close>

fun jsonValue :: "nat \<Rightarrow> jsstring \<Rightarrow> jsstring option"
  and jsonElements :: "nat \<Rightarrow> jsstring \<Rightarrow> jsstring option"
  and jsonMembers :: "nat \<Rightarrow> jsstring \<Rightarrow> jsstring option" where
  "jsonValue 0 s = None"
| "jsonValue (Suc n) [] = None"
| "jsonValue (Suc n) (c # cs) =
     (if c = 123 then
        (case skipWs cs of
           [] \<Rightarrow> None
         | d # ds \<Rightarrow> if d = 125 then Some ds else jsonMembers n (d # ds))
      else if c = 91 then
        (case skipWs cs of
           [] \<Rightarrow> None
         | d # ds \<Rightarrow> if d = 93 then Some ds else jsonElements n (d # ds))
      else if c = 34 then jsonChars cs
      else if c = 45 \<or> isDigit c then jsonNumber (c # cs)
      else if c = 116 then jsonKeyword (str ''true'') (c # cs)
      else if c = 102 then jsonKeyword (str ''false'') (c # cs)
      else if c = 110 then jsonKeyword (str ''null'') (c # cs)
      else None)"
| "jsonElements 0 s = None"
| "jsonElements (Suc n) s =
     (case jsonValue n s of
        None \<Rightarrow> None
      | Some r \<Rightarrow>
          (case skipWs r of
             [] \<Rightarrow> None
           | c # cs \<Rightarrow>
               if c = 93 then Some cs
               else if c = 44 then jsonElements n (skipWs cs)
               else None))"
| "jsonMembers 0 s = None"
| "jsonMembers (Suc n) [] = None"
| "jsonMembers (Suc n) (c # cs) =
     (if c \<noteq> 34 then None
      else
        (case jsonChars cs of
           None \<Rightarrow> None
         | Some r \<Rightarrow>
             (case skipWs r of
                [] \<Rightarrow> None
              | d # ds \<Rightarrow>
                  if d \<noteq> 58 then None
                  else
                    (case jsonValue n (skipWs ds) of
                       None \<Rightarrow> None
                     | Some r2 \<Rightarrow>
                         (case skipWs r2 of
                            [] \<Rightarrow> None
                          | e # es \<Rightarrow>
                              if e = 125 then Some es
                              else if e = 44 then jsonMembers n (skipWs es)
                              else None)))))"

definition jsonAccepts :: "jsstring \<Rightarrow> bool" where
  "jsonAccepts s \<longleftrightarrow>
     (case jsonValue (2 * length s + 2) (skipWs s) of
        None \<Rightarrow> False
      | Some r \<Rightarrow> skipWs r = [])"

definition jsonCheck :: "jsstring \<Rightarrow> jsstring + unit" where
  "jsonCheck s = (if jsonAccepts s then Inr () else Inl (str ''Unexpected token''))"

section \<open>Path and query utilities (language/parser.ts)\<close>

text \<open>\<^verbatim>\<open>s.indexOf(c)\<close> for one code unit: the first index, or \<open>-1\<close>.\<close>

fun indexOf :: "nat \<Rightarrow> jsstring \<Rightarrow> int" where
  "indexOf c [] = - 1"
| "indexOf c (x # xs) =
     (if x = c then 0
      else (let i = indexOf c xs in if i < 0 then - 1 else i + 1))"

definition getPathWithoutQuery :: "jsstring \<Rightarrow> jsstring" where
  "getPathWithoutQuery p =
     (let queryIndex = indexOf 63 p
      in if queryIndex \<ge> 0 then take (nat queryIndex) p else p)"

subsection \<open>decodeURIComponent\<close>

text \<open>
  \<^verbatim>\<open>decodeURIComponent\<close> belongs to the language runtime; the model follows the
  abstract operation Decode of ECMAScript with an empty set of preserved escapes. It
  throws a \<^verbatim>\<open>URIError\<close> on a \<^verbatim>\<open>%\<close> that is not followed by two hexadecimal digits and
  on escaped octets that are not the UTF-8 encoding of a code point; an escaped code
  point above U+FFFF becomes a surrogate pair.
\<close>

datatype uriError = URIError

definition hexValue :: "nat \<Rightarrow> nat option" where
  "hexValue c =
     (if 48 \<le> c \<and> c \<le> 57 then Some (c - 48)
      else if 65 \<le> c \<and> c \<le> 70 then Some (c - 55)
      else if 97 \<le> c \<and> c \<le> 102 then Some (c - 87)
      else None)"

text \<open>An escape \<^verbatim>\<open>%XX\<close> at the front of the input: its octet and the rest of the input.\<close>

fun escapeOctet :: "jsstring \<Rightarrow> (nat \<times> jsstring) option" where
  "escapeOctet (p # h # l # rest) =
     (if p = 37 then
        (case hexValue h of
           None \<Rightarrow> None
         | Some a \<Rightarrow> (case hexValue l of None \<Rightarrow> None | Some b \<Rightarrow> Some (16 * a + b, rest)))
      else None)"
| "escapeOctet s = None"

text \<open>The escapes of the \<open>n\<close> octets that continue a multi-octet sequence.\<close>

fun continuationOctets :: "nat \<Rightarrow> jsstring \<Rightarrow> (nat list \<times> jsstring) option" where
  "continuationOctets 0 s = Some ([], s)"
| "continuationOctets (Suc n) s =
     (case escapeOctet s of
        None \<Rightarrow> None
      | Some (b, r) \<Rightarrow>
          (case continuationOctets n r of
             None \<Rightarrow> None
           | Some (bs, r') \<Rightarrow> Some (b # bs, r')))"

definition isContinuation :: "nat \<Rightarrow> bool" where
  "isContinuation b \<longleftrightarrow> 128 \<le> b \<and> b \<le> 191"

text \<open>
  The code point of a sequence of two to four octets whose first octet has that many
  leading one bits, when the sequence is well-formed UTF-8: continuation octets of the
  form \<^verbatim>\<open>10xxxxxx\<close>, no overlong form, no surrogate, at most U+10FFFF.
\<close>

definition utf8CodePoint :: "nat list \<Rightarrow> nat option" where
  "utf8CodePoint bs =
     (case bs of
        [b0, b1] \<Rightarrow>
          (let cp = (b0 - 192) * 64 + (b1 - 128)
           in if isContinuation b1 \<and> 128 \<le> cp then Some cp else None)
      | [b0, b1, b2] \<Rightarrow>
          (let cp = (b0 - 224) * 4096 + (b1 - 128) * 64 + (b2 - 128)
           in if isContinuation b1 \<and> isContinuation b2 \<and> 2048 \<le> cp \<and>
                 \<not> (55296 \<le> cp \<and> cp \<le> 57343)
              then Some cp else None)
      | [b0, b1, b2, b3] \<Rightarrow>
          (let cp = (b0 - 240) * 262144 + (b1 - 128) * 4096 + (b2 - 128) * 64 + (b3 - 128)
           in if isContinuation b1 \<and> isContinuation b2 \<and> isContinuation b3 \<and>
                 65536 \<le> cp \<and> cp \<le> 1114111
              then Some cp else None)
      | _ \<Rightarrow> None)"

definition utf16Encode :: "nat \<Rightarrow> jsstring" where
  "utf16Encode cp =
     (if cp < 65536 then [cp]
      else [55296 + (cp - 65536) div 1024, 56320 + (cp - 65536) mod 1024])"

function decodeURIComponent :: "jsstring \<Rightarrow> uriError + jsstring" where
  "decodeURIComponent [] = Inr []"
| "decodeURIComponent (c # cs) =
     (if c \<noteq> 37 then
        (case decodeURIComponent cs of Inl e \<Rightarrow> Inl e | Inr r \<Rightarrow> Inr (c # r))
      else
        (case escapeOctet (c # cs) of
           None \<Rightarrow> Inl URIError
         | Some (b, rest) \<Rightarrow>
             if b < 128 then
               (case decodeURIComponent rest of Inl e \<Rightarrow> Inl e | Inr r \<Rightarrow> Inr (b # r))
             else if b < 192 \<or> 248 \<le> b then Inl URIError
             else
               (case continuationOctets (if b < 224 then 1 else if b < 240 then 2 else 3) rest of
                  None \<Rightarrow> Inl URIError
                | Some (bs, rest') \<Rightarrow>
                    (case utf8CodePoint (b # bs) of
                       None \<Rightarrow> Inl URIError
                     | Some cp \<Rightarrow>
                         (case decodeURIComponent rest' of
                            Inl e \<Rightarrow> Inl e
                          | Inr r \<Rightarrow> Inr (utf16Encode cp @ r))))))"
  by pat_completeness auto

termination decodeURIComponent
proof -
  have e: "length r < length s" if "escapeOctet s = Some (b, r)" for s b r
    using that by (induction s rule: escapeOctet.induct) (auto split: if_splits option.splits)
  have c: "length r \<le> length s" if "continuationOctets n s = Some (bs, r)" for n s bs r
    using that
  proof (induction n arbitrary: s bs r)
    case 0
    then show ?case by simp
  next
    case (Suc n)
    from Suc.prems obtain b r1 bs1 where 1: "escapeOctet s = Some (b, r1)"
      and 2: "continuationOctets n r1 = Some (bs1, r)"
      by (auto split: option.splits)
    from e [OF 1] Suc.IH [OF 2] show ?case by simp
  qed
  show ?thesis
  proof (relation "measure length", goal_cases)
    case 1
    show ?case by simp
  next
    case (2 c cs)
    then show ?case by simp
  next
    case (3 c cs x2 x y)
    then show ?case using e [of "c # cs" x y] by simp
  next
    case (4 c cs x2 x y x2a xa ya x2b)
    then show ?case
      using e [of "c # cs" x y] c [of _ y xa ya] by fastforce
  qed
qed

subsection \<open>getQueryParams\<close>

text \<open>
  A \<^verbatim>\<open>Map<string, string>\<close> is the list of its entries in iteration order.
  \<^verbatim>\<open>params.set(k, v)\<close> replaces the value of an entry with key \<open>k\<close> where it stands
  and otherwise appends a new entry.
\<close>

type_synonym params = "(jsstring \<times> jsstring) list"

fun mapSet :: "params \<Rightarrow> jsstring \<Rightarrow> jsstring \<Rightarrow> params" where
  "mapSet [] k v = [(k, v)]"
| "mapSet ((k', v') # m) k v =
     (if k' = k then (k, v) # m else (k', v') # mapSet m k v)"

text \<open>
  The body of the \<^verbatim>\<open>for\<close> loop on one pair: \<^verbatim>\<open>[key, value] = pair.split('=')\<close> takes
  the first two elements of the split (\<open>value\<close> is undefined when there is only one);
  a thrown \<^verbatim>\<open>URIError\<close> leaves the function.
\<close>

definition setPair :: "params \<Rightarrow> jsstring \<Rightarrow> uriError + params" where
  "setPair ps pair =
     (case split 61 pair of
        [] \<Rightarrow> Inr ps
      | [key] \<Rightarrow>
          (if key \<noteq> [] then
             (case decodeURIComponent key of
                Inl e \<Rightarrow> Inl e
              | Inr k \<Rightarrow> Inr (mapSet ps k []))
           else Inr ps)
      | key # value # others \<Rightarrow>
          (if key \<noteq> [] then
             (case decodeURIComponent key of
                Inl e \<Rightarrow> Inl e
              | Inr k \<Rightarrow>
                  (if value \<noteq> [] then
                     (case decodeURIComponent value of
                        Inl e \<Rightarrow> Inl e
                      | Inr v \<Rightarrow> Inr (mapSet ps k v))
                   else Inr (mapSet ps k [])))
           else Inr ps))"

fun setPairs :: "params \<Rightarrow> jsstring list \<Rightarrow> uriError + params" where
  "setPairs ps [] = Inr ps"
| "setPairs ps (pair # pairs) =
     (case setPair ps pair of
        Inl e \<Rightarrow> Inl e
      | Inr ps' \<Rightarrow> setPairs ps' pairs)"

definition getQueryParams :: "jsstring \<Rightarrow> uriError + params" where
  "getQueryParams p =
     (let queryIndex = indexOf 63 p
      in if queryIndex < 0 then Inr []
         else setPairs [] (split 38 (drop (nat (queryIndex + 1)) p)))"

section \<open>The result formatter (execution/queryExecutor.ts)\<close>

subsection \<open>Numbers and JSON.stringify\<close>

text \<open>The decimal digits of a natural number.\<close>

fun digits :: "nat \<Rightarrow> jsstring" where
  "digits n = (if n < 10 then [48 + n] else digits (n div 10) @ [48 + n mod 10])"

declare digits.simps [simp del]

text \<open>
  \<^verbatim>\<open>Number::toString\<close> with radix 10, which a template literal and \<^verbatim>\<open>JSON.stringify\<close>
  apply to a Number. \<open>shortest\<close> moves the trailing zeros of the decimal into the
  exponent, so that \<open>s\<close> has as few digits as possible. With \<open>k\<close> the number of digits
  of \<open>s\<close> and \<open>n = k + e\<close>, the value being \<open>s\<close> times ten to the power \<open>n - k\<close>: the
  digits followed by \<open>n - k\<close> zeros when \<open>k \<le> n \<le> 21\<close>; the digits with a point
  after the first \<open>n\<close> when \<open>0 < n \<le> 21\<close>; \<^verbatim>\<open>0.\<close>, \<open>- n\<close> zeros and the digits when
  \<open>- 6 < n \<le> 0\<close>; and otherwise the exponent notation, the first digit, a point and the
  other digits when there are any, \<^verbatim>\<open>e\<close>, the sign of the exponent and the digits of
  \<open>n - 1\<close>.
\<close>

fun shortest :: "nat \<Rightarrow> int \<Rightarrow> nat \<times> int" where
  "shortest s e = (if s \<noteq> 0 \<and> s mod 10 = 0 then shortest (s div 10) (e + 1) else (s, e))"

declare shortest.simps [simp del]

definition positiveToString :: "nat \<Rightarrow> int \<Rightarrow> jsstring" where
  "positiveToString s e =
     (case shortest s e of
        (s', e') \<Rightarrow>
          (let ds = digits s';
               k = int (length ds);
               n = k + e'
           in if k \<le> n \<and> n \<le> 21 then ds @ replicate (nat (n - k)) 48
              else if 0 < n \<and> n \<le> 21 then take (nat n) ds @ [46] @ drop (nat n) ds
              else if - 6 < n \<and> n \<le> 0 then [48, 46] @ replicate (nat (- n)) 48 @ ds
              else (if k = 1 then ds else hd ds # 46 # tl ds) @
                   [101, if n < 0 then 45 else 43] @ digits (nat (abs (n - 1)))))"

definition numberToString :: "jsnumber \<Rightarrow> jsstring" where
  "numberToString x =
     (case x of
        NaN \<Rightarrow> str ''NaN''
      | Infinity negative \<Rightarrow> (if negative then [45] else []) @ str ''Infinity''
      | Finite negative s e \<Rightarrow>
          if s = 0 then [48]
          else (if negative then [45] else []) @ positiveToString s e)"

text \<open>
  QuoteJSONString of ECMAScript: the two-character escapes, \<^verbatim>\<open>\uXXXX\<close> for the other
  control characters and for a surrogate that is not part of a pair, every other code
  point as it is.
\<close>

definition hexDigit :: "nat \<Rightarrow> nat" where
  "hexDigit n = (if n < 10 then 48 + n else 87 + n)"

definition unicodeEscape :: "nat \<Rightarrow> jsstring" where
  "unicodeEscape c =
     [92, 117, hexDigit (c div 4096 mod 16), hexDigit (c div 256 mod 16),
      hexDigit (c div 16 mod 16), hexDigit (c mod 16)]"

definition isHighSurrogate :: "nat \<Rightarrow> bool" where
  "isHighSurrogate c \<longleftrightarrow> 55296 \<le> c \<and> c \<le> 56319"

definition isLowSurrogate :: "nat \<Rightarrow> bool" where
  "isLowSurrogate c \<longleftrightarrow> 56320 \<le> c \<and> c \<le> 57343"

definition quoteUnit :: "nat \<Rightarrow> jsstring" where
  "quoteUnit c =
     (if c = 8 then [92, 98]
      else if c = 9 then [92, 116]
      else if c = 10 then [92, 110]
      else if c = 12 then [92, 102]
      else if c = 13 then [92, 114]
      else if c = 34 then [92, 34]
      else if c = 92 then [92, 92]
      else if c < 32 \<or> isHighSurrogate c \<or> isLowSurrogate c then unicodeEscape c
      else [c])"

fun quoteUnits :: "jsstring \<Rightarrow> jsstring" where
  "quoteUnits [] = []"
| "quoteUnits [c] = quoteUnit c"
| "quoteUnits (c # d # cs) =
     (if isHighSurrogate c \<and> isLowSurrogate d then c # d # quoteUnits cs
      else quoteUnit c @ quoteUnits (d # cs))"

definition quoteJSONString :: "jsstring \<Rightarrow> jsstring" where
  "quoteJSONString s = 34 # quoteUnits s @ [34]"

text \<open>
  \<^verbatim>\<open>JSON.stringify(v, null, 2)\<close>: the first argument of \<open>serialize\<close> is the current
  indentation, which grows by two spaces at every level. A finite Number is written by
  \<^verbatim>\<open>Number::toString\<close>, \<^verbatim>\<open>NaN\<close> and the infinities as \<^verbatim>\<open>null\<close>.
\<close>

fun serialize :: "jsstring \<Rightarrow> json \<Rightarrow> jsstring" where
  "serialize ind JNull = str ''null''"
| "serialize ind (JBool b) = (if b then str ''true'' else str ''false'')"
| "serialize ind (JNumber x) =
     (case x of Finite negative s e \<Rightarrow> numberToString x | _ \<Rightarrow> str ''null'')"
| "serialize ind (JString s) = quoteJSONString s"
| "serialize ind (JArray vs) =
     (if vs = [] then str ''[]''
      else [91, 10] @ ind @ [32, 32] @
           joinWith ([44, 10] @ ind @ [32, 32]) (map (serialize (ind @ [32, 32])) vs) @
           [10] @ ind @ [93])"
| "serialize ind (JObject kvs) =
     (if kvs = [] then str ''{}''
      else [123, 10] @ ind @ [32, 32] @
           joinWith ([44, 10] @ ind @ [32, 32])
             (map (\<lambda>kv. quoteJSONString (fst kv) @ [58, 32] @ serialize (ind @ [32, 32]) (snd kv))
                kvs) @
           [10] @ ind @ [125])"

definition stringify2 :: "json \<Rightarrow> jsstring" where
  "stringify2 v = serialize [] v"

subsection \<open>formatQueryResult\<close>

text \<open>
  \<^verbatim>\<open>ToBoolean\<close> on a value of \<^verbatim>\<open>JSON.parse\<close>: false for \<^verbatim>\<open>null\<close>, \<^verbatim>\<open>false\<close>, a
  Number that is zero or \<^verbatim>\<open>NaN\<close>, and the empty string.
\<close>

fun truthy :: "json \<Rightarrow> bool" where
  "truthy JNull = False"
| "truthy (JBool b) = b"
| "truthy (JNumber x) = numberTruthy x"
| "truthy (JString s) = (s \<noteq> [])"
| "truthy (JArray vs) = True"
| "truthy (JObject kvs) = True"

text \<open>The status line of a result without an error: the glyphs are U+2713 and U+2717.\<close>

definition statusLine :: "QueryResult \<Rightarrow> jsstring" where
  "statusLine result =
     str ''# '' @ [if success result then 10003 else 10007] @ str '' '' @
     numberToString (statusCode result) @ str '' '' @ statusMessage result @
     str '' ('' @ numberToString (durationMs result) @ str ''ms)''"

definition formatQueryResult :: "ParsedRequest \<Rightarrow> QueryResult \<Rightarrow> bool \<Rightarrow> jsstring" where
  "formatQueryResult request result prettyPrint =
     (let lines1 = [str ''# '' @ methodName (method request) @ str '' '' @ path request, []];
          lines2 = lines1 @
            [case error result of
               None \<Rightarrow> statusLine result
             | Some e \<Rightarrow> if e \<noteq> [] then str ''# ERROR: '' @ e else statusLine result];
          lines3 = lines2 @ [[]];
          raw = (if QueryResult.body result \<noteq> [] then lines3 @ [QueryResult.body result]
                 else lines3);
          lines4 =
            (case json result of
               None \<Rightarrow> raw
             | Some v \<Rightarrow> if truthy v \<and> prettyPrint then lines3 @ [stringify2 v] else raw)
      in join lines4)"

section \<open>The query executor (execution/queryExecutor.ts)\<close>

subsection \<open>What the executor calls and what can be thrown\<close>

text \<open>
  A thrown value is an \<^verbatim>\<open>Error\<close> object with its message or something else; the
  \<^verbatim>\<open>catch\<close> clauses read \<^verbatim>\<open>error instanceof Error ? error.message : 'Unknown error'\<close>.
\<close>

datatype thrown = ErrorObject jsstring | OtherThrown

definition thrownMessage :: "thrown \<Rightarrow> jsstring" where
  "thrownMessage t = (case t of ErrorObject m \<Rightarrow> m | OtherThrown \<Rightarrow> str ''Unknown error'')"

text \<open>
  \<^verbatim>\<open>executeRequest\<close> and \<^verbatim>\<open>getAuthHeaders\<close> are \<^verbatim>\<open>async\<close> functions. What the caller
  of one gets is a promise that is fulfilled with a value, rejected with a thrown value,
  or never settled: \<open>Pending\<close> is the promise of a call that does not return.
\<close>

datatype 'a promise = Fulfilled 'a | Rejected thrown | Pending

text \<open>
  What happens to a dispatched request. The code settles its promise in three handlers
  only: \<^verbatim>\<open>end\<close> of the response, \<^verbatim>\<open>error\<close> of the request, \<^verbatim>\<open>timeout\<close> of the
  request; the first of them that runs decides. So the outcomes are: \<^verbatim>\<open>http.request\<close>,
  \<^verbatim>\<open>req.write\<close> or \<^verbatim>\<open>req.end\<close> throw inside the promise executor, which rejects the
  promise; the response ends (status code and message as the transport reports them,
  possibly undefined, the buffered body, the headers); the request emits \<^verbatim>\<open>error\<close>; the
  request emits \<^verbatim>\<open>timeout\<close>; or none of the handlers ever runs. The last happens in two
  ways. \<open>ResponseAborted\<close>: the response has begun and the connection is closed before
  the end of the body; the response then emits \<^verbatim>\<open>aborted\<close> and \<^verbatim>\<open>close\<close>, for which the
  code registers no handler, and neither \<^verbatim>\<open>end\<close> nor an \<^verbatim>\<open>error\<close> of the request.
  \<open>NoEvent\<close>: the target accepts the request and never answers while no timer is armed
  (a timeout of \<^verbatim>\<open>0\<close> disables it).
\<close>

datatype transportOutcome =
    RequestThrows thrown
  | ResponseEnd "int option" "jsstring option" jsstring "(jsstring \<times> headerValue) list"
  | ErrorEvent jsstring
  | TimeoutEvent
  | ResponseAborted
  | NoEvent

record SignOptions =
  region :: jsstring
  profile :: "jsstring option"
  credentials :: "(jsstring \<times> jsstring) option"

text \<open>
  The world outside the executor, as the outcomes of its calls: \<^verbatim>\<open>new URL\<close>, the Base64
  encoding of \<^verbatim>\<open>Buffer\<close>, \<^verbatim>\<open>signRequest\<close> (connections/awsAuth.ts, an \<^verbatim>\<open>async\<close>
  function that hands the request to the credential providers and the signer of the AWS
  SDK: its promise is fulfilled with the signed headers, rejected, or left pending by
  them), \<^verbatim>\<open>fs.readFileSync\<close>, the transport, \<^verbatim>\<open>JSON.parse\<close>, and the two readings of
  \<^verbatim>\<open>Date.now()\<close>, whole numbers of milliseconds since 1970.
\<close>

record Environment =
  newURL :: "jsstring \<Rightarrow> thrown + ParsedUrl"
  base64 :: "jsstring \<Rightarrow> jsstring"
  signRequest :: "jsstring \<Rightarrow> jsstring \<Rightarrow> SignOptions \<Rightarrow> (jsstring \<times> jsstring) list promise"
  readFileSync :: "jsstring \<Rightarrow> thrown + jsstring"
  httpRequest :: "bool \<Rightarrow> RequestOptions \<Rightarrow> jsstring option \<Rightarrow> transportOutcome"
  jsonParse :: "jsstring \<Rightarrow> jsstring + json"
  startTime :: nat
  endTime :: nat

text \<open>An optional string is truthy when it is present and not empty.\<close>

definition present :: "jsstring option \<Rightarrow> bool" where
  "present s = (case s of None \<Rightarrow> False | Some t \<Rightarrow> t \<noteq> [])"

definition DEFAULT_TIMEOUT :: jsnumber where
  "DEFAULT_TIMEOUT = numberOfInt 30000"

subsection \<open>createHttpsAgent, buildRequestUrl, getAuthHeaders\<close>

definition createHttpsAgent :: "Environment \<Rightarrow> StoredConnection \<Rightarrow> thrown + Agent" where
  "createHttpsAgent env c =
     (case caCertPath c of
        None \<Rightarrow> Inr \<lparr>rejectUnauthorized = sslVerify c, ca = None\<rparr>
      | Some p \<Rightarrow>
          if p \<noteq> [] then
            (case readFileSync env p of
               Inl t \<Rightarrow>
                 Inl (ErrorObject (str ''Failed to read CA certificate: '' @ thrownMessage t))
             | Inr bytes \<Rightarrow> Inr \<lparr>rejectUnauthorized = sslVerify c, ca = Some bytes\<rparr>)
          else Inr \<lparr>rejectUnauthorized = sslVerify c, ca = None\<rparr>)"

definition buildRequestUrl :: "jsstring \<Rightarrow> jsstring \<Rightarrow> jsstring" where
  "buildRequestUrl baseUrl p =
     (let normalizedPath = (case p of [] \<Rightarrow> 47 # p | c # cs \<Rightarrow> if c = 47 then p else 47 # p);
          normalizedBase = (if baseUrl \<noteq> [] \<and> last baseUrl = 47 then butlast baseUrl else baseUrl)
      in normalizedBase @ normalizedPath)"

text \<open>connections/basicAuth.ts: the header of the credentials.\<close>

definition generateBasicAuthHeader :: "Environment \<Rightarrow> jsstring \<Rightarrow> jsstring \<Rightarrow> jsstring" where
  "generateBasicAuthHeader env user pass = str ''Basic '' @ base64 env (user @ [58] @ pass)"

definition createBasicAuthHeaders ::
  "Environment \<Rightarrow> jsstring \<Rightarrow> jsstring \<Rightarrow> (jsstring \<times> jsstring) list" where
  "createBasicAuthHeaders env user pass =
     [(str ''Authorization'', generateBasicAuthHeader env user pass)]"

definition getAuthHeaders ::
  "Environment \<Rightarrow> jsstring \<Rightarrow> jsstring \<Rightarrow> jsstring option \<Rightarrow> ExecuteOptions \<Rightarrow>
   (jsstring \<times> jsstring) list promise" where
  "getAuthHeaders env m u b options =
     (let c = connection options in
      case authType c of
        Basic \<Rightarrow>
          (case (username c, password options) of
             (Some user, Some pass) \<Rightarrow>
               if user = [] \<or> pass = []
               then Rejected (ErrorObject (str ''Username and password required for Basic Auth''))
               else Fulfilled (createBasicAuthHeaders env user pass)
           | _ \<Rightarrow> Rejected (ErrorObject (str ''Username and password required for Basic Auth'')))
      | AwsIam \<Rightarrow>
          (case awsRegion c of
             None \<Rightarrow> Rejected (ErrorObject (str ''AWS region required for IAM Auth''))
           | Some r \<Rightarrow>
               if r = [] then Rejected (ErrorObject (str ''AWS region required for IAM Auth''))
               else signRequest env m u
                 \<lparr>region = r, profile = awsProfile c,
                  credentials =
                    (case awsCredentials options of
                       None \<Rightarrow> None
                     | Some k \<Rightarrow>
                         (case (accessKeyId k, secretAccessKey k) of
                            (Some a, Some s) \<Rightarrow> if a \<noteq> [] \<and> s \<noteq> [] then Some (a, s) else None
                          | _ \<Rightarrow> None))\<rparr>)
      | OtherAuth x \<Rightarrow> Fulfilled [])"

subsection \<open>executeRequest\<close>

text \<open>The result literal of the three places that report a failure.\<close>

definition errorResult :: "int \<Rightarrow> jsstring \<Rightarrow> QueryResult" where
  "errorResult d msg =
     \<lparr>success = False, statusCode = numberOfInt 0, statusMessage = [], body = [], json = None,
      headers = [], durationMs = numberOfInt d, error = Some msg\<rparr>"

definition elapsed :: "Environment \<Rightarrow> int" where
  "elapsed env = int (endTime env) - int (startTime env)"

definition effectiveTimeout :: "ExecuteOptions \<Rightarrow> jsnumber" where
  "effectiveTimeout options =
     (case ExecuteOptions.timeout options of None \<Rightarrow> DEFAULT_TIMEOUT | Some t \<Rightarrow> t)"

text \<open>
  The \<^verbatim>\<open>try\<close> block up to the dispatch: the URL, the authentication headers merged
  over the default headers, the request options, and the agent of an encrypted
  transport. \<open>Rejected\<close> is a value thrown in the block (by \<^verbatim>\<open>new URL\<close>, by the awaited
  \<^verbatim>\<open>getAuthHeaders\<close>, by \<^verbatim>\<open>createHttpsAgent\<close>); \<open>Pending\<close> is an \<^verbatim>\<open>await\<close> of the
  authentication headers that never resumes.
\<close>

definition prepareRequest ::
  "Environment \<Rightarrow> ParsedRequest \<Rightarrow> ExecuteOptions \<Rightarrow> (bool \<times> RequestOptions) promise" where
  "prepareRequest env req options =
     (let c = connection options;
          u = buildRequestUrl (url c) (ParsedRequest.path req)
      in case newURL env u of
           Inl t \<Rightarrow> Rejected t
         | Inr parsedUrl \<Rightarrow>
             (let isHttps = (protocol parsedUrl = str ''https:'')
              in case getAuthHeaders env (methodName (ParsedRequest.method req)) u
                        (ParsedRequest.body req) options of
                   Rejected t \<Rightarrow> Rejected t
                 | Pending \<Rightarrow> Pending
                 | Fulfilled authHeaders \<Rightarrow>
                     (let hs = foldl (\<lambda>h kv. mapSet h (fst kv) (snd kv))
                                 [(str ''Content-Type'', str ''application/json''),
                                  (str ''Accept'', str ''application/json'')]
                                 authHeaders;
                          requestOptions =
                            \<lparr>RequestOptions.method = methodName (ParsedRequest.method req),
                             RequestOptions.hostname = ParsedUrl.hostname parsedUrl,
                             RequestOptions.port =
                               (if ParsedUrl.port parsedUrl \<noteq> []
                                then PortText (ParsedUrl.port parsedUrl)
                                else PortNumber (if isHttps then 443 else 80)),
                             RequestOptions.path = pathname parsedUrl @ search parsedUrl,
                             RequestOptions.headers = hs,
                             RequestOptions.timeout = effectiveTimeout options,
                             agent = None\<rparr>
                      in if isHttps then
                           (case createHttpsAgent env c of
                              Inl t \<Rightarrow> Rejected t
                            | Inr a \<Rightarrow> Fulfilled (isHttps, requestOptions\<lparr>agent := Some a\<rparr>))
                         else Fulfilled (isHttps, requestOptions))))"

text \<open>
  The promise of the request: what each outcome of the transport settles it with. It
  stays pending when none of the three handlers runs.
\<close>

definition dispatch ::
  "Environment \<Rightarrow> bool \<Rightarrow> RequestOptions \<Rightarrow> jsstring option \<Rightarrow> QueryResult promise" where
  "dispatch env isHttps requestOptions b =
     (case httpRequest env isHttps requestOptions (if present b then b else None) of
        RequestThrows t \<Rightarrow> Rejected t
      | ResponseEnd code msg payload hs \<Rightarrow>
          (let sc = (case code of None \<Rightarrow> 0 | Some n \<Rightarrow> n)
           in Fulfilled
                \<lparr>success = (200 \<le> sc \<and> sc < 300),
                 statusCode = numberOfInt sc,
                 statusMessage = (case msg of None \<Rightarrow> [] | Some m \<Rightarrow> m),
                 body = payload,
                 json = (case jsonParse env payload of Inl e \<Rightarrow> None | Inr v \<Rightarrow> Some v),
                 headers = hs,
                 durationMs = numberOfInt (elapsed env),
                 error = None\<rparr>)
      | ErrorEvent m \<Rightarrow> Fulfilled (errorResult (elapsed env) m)
      | TimeoutEvent \<Rightarrow>
          Fulfilled (errorResult (elapsed env)
                 (str ''Request timed out after '' @
                  numberToString (RequestOptions.timeout requestOptions) @ str ''ms''))
      | ResponseAborted \<Rightarrow> Pending
      | NoEvent \<Rightarrow> Pending)"

definition tryBlock :: "Environment \<Rightarrow> ParsedRequest \<Rightarrow> ExecuteOptions \<Rightarrow> QueryResult promise" where
  "tryBlock env req options =
     (case prepareRequest env req options of
        Rejected t \<Rightarrow> Rejected t
      | Pending \<Rightarrow> Pending
      | Fulfilled (isHttps, requestOptions) \<Rightarrow>
          dispatch env isHttps requestOptions (ParsedRequest.body req))"

text \<open>
  The function with its \<^verbatim>\<open>catch\<close> clause, which turns a value thrown in the \<^verbatim>\<open>try\<close>
  block into a result. \<open>Rejected\<close> would be an exception that leaves
  \<^verbatim>\<open>executeRequest\<close>; \<open>Pending\<close> is a call that never returns.
\<close>

definition executeRequest ::
  "Environment \<Rightarrow> ParsedRequest \<Rightarrow> ExecuteOptions \<Rightarrow> QueryResult promise" where
  "executeRequest env req options =
     (case tryBlock env req options of
        Fulfilled r \<Rightarrow> Fulfilled r
      | Rejected t \<Rightarrow> Fulfilled (errorResult (elapsed env) (thrownMessage t))
      | Pending \<Rightarrow> Pending)"

section \<open>Notions used to state and prove the properties of the parser\<close>

text \<open>The guarded call \<^verbatim>\<open>if (currentRequest) finalizeRequest(e)\<close>, which occurs twice.\<close>

definition closeOpen :: "(jsstring \<Rightarrow> jsstring + 'v) \<Rightarrow> int \<Rightarrow> pstate \<Rightarrow> pstate" where
  "closeOpen jp e st = (if currentRequest st \<noteq> None then finalizeRequest jp e st else st)"

text \<open>The body that finalizeRequest attaches for the collected lines.\<close>

definition bodyText :: "jsstring list \<Rightarrow> jsstring option" where
  "bodyText bl = (let b = trim (join bl) in if b = [] then None else Some b)"

text \<open>
  The errors that belong to an emitted request: one when \<^verbatim>\<open>JSON.parse\<close> throws on its
  body, with the line after the request's start line, and none otherwise.
\<close>

definition errorsOf :: "(jsstring \<Rightarrow> jsstring + 'v) \<Rightarrow> ParsedRequest \<Rightarrow> ParseError list" where
  "errorsOf jp r =
     (case body r of
        None \<Rightarrow> []
      | Some b \<Rightarrow>
          (case jp b of
             Inr v \<Rightarrow> []
           | Inl msg \<Rightarrow> [\<lparr>message = str ''Invalid JSON body: '' @ msg, line = startLine r + 1\<rparr>]))"

text \<open>The zero-based indices of the lines that match the request-line pattern.\<close>

definition requestLineIndices :: "jsstring list \<Rightarrow> int list" where
  "requestLineIndices ls = map int (filter (\<lambda>i. isRequestLine (ls ! i)) [0..<length ls])"

text \<open>The lines \<open>s + 1\<close> to \<open>e\<close> of a document: what follows a request line, up to its end line.\<close>

definition linesAfter :: "jsstring list \<Rightarrow> int \<Rightarrow> int \<Rightarrow> jsstring list" where
  "linesAfter ls s e = take (nat (e - s)) (drop (nat s + 1) ls)"

text \<open>The lines the loop collects from a block: no comments, no leading blank lines.\<close>

definition collect :: "jsstring list \<Rightarrow> jsstring list" where
  "collect ls = dropWhile isBlankLine (filter (\<lambda>l. \<not> isComment l) ls)"

definition dropBlankEnd :: "jsstring list \<Rightarrow> jsstring list" where
  "dropBlankEnd ls = rev (dropWhile isBlankLine (rev ls))"

text \<open>
  The body of a block of lines, said without the loop: drop the comment lines, then the
  blank lines at both ends; what remains is joined by newlines, every line in between as
  it is (blank ones too), the first line without its leading and the last without its
  trailing white space.
\<close>

definition bodyOfLines :: "jsstring list \<Rightarrow> jsstring option" where
  "bodyOfLines seg =
     (case dropBlankEnd (dropWhile isBlankLine (filter (\<lambda>l. \<not> isComment l) seg)) of
        [] \<Rightarrow> None
      | [a] \<Rightarrow> Some (trim a)
      | a # rest \<Rightarrow> Some (join (trimStart a # butlast rest @ [trimEnd (last rest)])))"

text \<open>A request without its line numbers.\<close>

definition lineless :: "ParsedRequest \<Rightarrow> HttpMethod \<times> jsstring \<times> jsstring option" where
  "lineless r = (method r, path r, body r)"

text \<open>Invariants of the loop.\<close>

definition openStart :: "pstate \<Rightarrow> int list" where
  "openStart st = (case currentRequest st of None \<Rightarrow> [] | Some (m, p, s) \<Rightarrow> [s])"

definition spansOK :: "int \<Rightarrow> pstate \<Rightarrow> bool" where
  "spansOK n st \<longleftrightarrow>
     0 \<le> n \<and>
     (\<forall>r\<in>set (requests st). 0 \<le> startLine r \<and> startLine r \<le> endLine r \<and> endLine r < n) \<and>
     sorted_wrt (\<lambda>a b. endLine a < startLine b) (requests st) \<and>
     (\<forall>m p s. currentRequest st = Some (m, p, s) \<longrightarrow>
        0 \<le> s \<and> s < n \<and> (\<forall>r\<in>set (requests st). endLine r < s))"

definition contentOK :: "jsstring list \<Rightarrow> pstate \<Rightarrow> bool" where
  "contentOK xs st \<longleftrightarrow>
     (\<forall>r\<in>set (requests st).
        parseRequestLine (xs ! nat (startLine r)) = Some (method r, path r) \<and>
        body r = bodyText (collect (linesAfter xs (startLine r) (endLine r)))) \<and>
     (case currentRequest st of
        None \<Rightarrow> bodyLines st = []
      | Some (m, p, s) \<Rightarrow>
          parseRequestLine (xs ! nat s) = Some (m, p) \<and>
          bodyLines st = collect (drop (nat s + 1) xs))"

definition endsOK :: "pstate \<Rightarrow> bool" where
  "endsOK st \<longleftrightarrow>
     (currentRequest st = None \<longrightarrow> requests st = []) \<and>
     map endLine (requests st) =
       map (\<lambda>s. s - 1) (tl (map startLine (requests st) @ openStart st))"

definition sameRequests :: "pstate \<Rightarrow> pstate \<Rightarrow> bool" where
  "sameRequests st st' \<longleftrightarrow>
     requests st = requests st' \<and> currentRequest st = currentRequest st' \<and>
     bodyLines st = bodyLines st'"

definition sameContent :: "pstate \<Rightarrow> pstate \<Rightarrow> bool" where
  "sameContent st st' \<longleftrightarrow>
     map lineless (requests st) = map lineless (requests st') \<and>
     map message (errors st) = map message (errors st') \<and>
     map_option (\<lambda>(m, p, s). (m, p)) (currentRequest st) =
       map_option (\<lambda>(m, p, s). (m, p)) (currentRequest st') \<and>
     bodyLines st = bodyLines st'"

text \<open>A document with a comment and blank lines around and inside a body.\<close>

definition blanksDocument :: jsstring where
  "blanksDocument =
     str ''POST /x\<newline>\<newline>{\<newline># c\<newline>\<newline>}\<newline>\<newline>GET /y''"


section \<open>Notions used to state the properties of getQueryParams\<close>

text \<open>The substring after the first \<^verbatim>\<open>?\<close> (empty when there is none).\<close>

definition queryString :: "jsstring \<Rightarrow> jsstring" where
  "queryString p = drop 1 (dropWhile (\<lambda>c. c \<noteq> 63) p)"

text \<open>
  Of a pair, the text before the first \<^verbatim>\<open>=\<close> and the text between the first and the
  second \<^verbatim>\<open>=\<close> (empty when the pair has no \<^verbatim>\<open>=\<close>).
\<close>

definition keyOf :: "jsstring \<Rightarrow> jsstring" where
  "keyOf pair = takeWhile (\<lambda>c. c \<noteq> 61) pair"

definition valueOf :: "jsstring \<Rightarrow> jsstring" where
  "valueOf pair = takeWhile (\<lambda>c. c \<noteq> 61) (drop 1 (dropWhile (\<lambda>c. c \<noteq> 61) pair))"

text \<open>The undecoded keys and values of a path, for the pairs whose key is not empty.\<close>

definition rawPairs :: "jsstring \<Rightarrow> (jsstring \<times> jsstring) list" where
  "rawPairs p =
     filter (\<lambda>kv. fst kv \<noteq> [])
       (map (\<lambda>pair. (keyOf pair, valueOf pair)) (split 38 (queryString p)))"

definition decodable :: "jsstring \<Rightarrow> bool" where
  "decodable s = (case decodeURIComponent s of Inl e \<Rightarrow> False | Inr r \<Rightarrow> True)"

definition decoded :: "jsstring \<Rightarrow> jsstring" where
  "decoded s = (case decodeURIComponent s of Inl e \<Rightarrow> [] | Inr r \<Rightarrow> r)"

definition decodedPairs :: "jsstring \<Rightarrow> (jsstring \<times> jsstring) list" where
  "decodedPairs p = map (\<lambda>kv. (decoded (fst kv), decoded (snd kv))) (rawPairs p)"

text \<open>
  Splitting a pair at its first \<^verbatim>\<open>=\<close> only: the value is all the text after it. The
  decoded keys and values of a path under that reading, again for the pairs whose key is
  not empty.
\<close>

definition valueAfterFirst :: "jsstring \<Rightarrow> jsstring" where
  "valueAfterFirst pair = drop 1 (dropWhile (\<lambda>c. c \<noteq> 61) pair)"

definition pairsAtFirstEquals :: "jsstring \<Rightarrow> (jsstring \<times> jsstring) list" where
  "pairsAtFirstEquals p =
     map (\<lambda>kv. (decoded (fst kv), decoded (snd kv)))
       (filter (\<lambda>kv. fst kv \<noteq> [])
          (map (\<lambda>pair. (keyOf pair, valueAfterFirst pair)) (split 38 (queryString p))))"

text \<open>The elements of a list in the order of their first occurrences.\<close>

definition firstOccurrences :: "'a list \<Rightarrow> 'a list" where
  "firstOccurrences xs = rev (remdups (rev xs))"

text \<open>
  Well-formed escapes, as a condition on the text alone: every \<^verbatim>\<open>%\<close> is followed by two
  hexadecimal digits. \<open>asciiEscapes\<close> asks in addition that the first digit is below 8,
  so that the escaped octet is below \<^verbatim>\<open>0x80\<close>.
\<close>

definition twoHex :: "jsstring \<Rightarrow> bool" where
  "twoHex cs =
     (case cs of
        h # l # rest \<Rightarrow> hexValue h \<noteq> None \<and> hexValue l \<noteq> None
      | _ \<Rightarrow> False)"

fun wellFormedEscapes :: "jsstring \<Rightarrow> bool" where
  "wellFormedEscapes [] = True"
| "wellFormedEscapes (c # cs) = ((if c = 37 then twoHex cs else True) \<and> wellFormedEscapes cs)"

definition lowEscape :: "jsstring \<Rightarrow> bool" where
  "lowEscape cs =
     (case cs of
        h # l # rest \<Rightarrow>
          (case hexValue h of None \<Rightarrow> False | Some a \<Rightarrow> a < 8) \<and> hexValue l \<noteq> None
      | _ \<Rightarrow> False)"

fun asciiEscapes :: "jsstring \<Rightarrow> bool" where
  "asciiEscapes [] = True"
| "asciiEscapes (c # cs) = ((if c = 37 then lowEscape cs else True) \<and> asciiEscapes cs)"

section \<open>Notions used to state the properties of the formatter\<close>

text \<open>
  The format as claim C7 words it: the request line, a blank line, the status line
  (\<^verbatim>\<open># ERROR: \<close> and the message when error is set, else the glyph line), a blank line,
  then the body: the indented serialization when json is present and prettyPrint is
  true, the raw text otherwise.
\<close>

definition formatSpec :: "ParsedRequest \<Rightarrow> QueryResult \<Rightarrow> bool \<Rightarrow> jsstring" where
  "formatSpec request result prettyPrint =
     join
       [str ''# '' @ methodName (method request) @ str '' '' @ path request,
        [],
        (case error result of
           None \<Rightarrow> statusLine result
         | Some e \<Rightarrow> str ''# ERROR: '' @ e),
        [],
        (case json result of
           None \<Rightarrow> QueryResult.body result
         | Some v \<Rightarrow> if prettyPrint then stringify2 v else QueryResult.body result)]"

text \<open>The first line of every format.\<close>

definition requestHeader :: "ParsedRequest \<Rightarrow> jsstring" where
  "requestHeader request = str ''# '' @ methodName (method request) @ str '' '' @ path request"

text \<open>A request and results for the examples.\<close>

definition searchRequest :: ParsedRequest where
  "searchRequest =
     \<lparr>method = GET, path = str ''/_search'', body = None, startLine = 0, endLine = 0\<rparr>"

definition okResult :: "jsstring \<Rightarrow> json option \<Rightarrow> QueryResult" where
  "okResult b j =
     \<lparr>success = True, statusCode = numberOfInt 200, statusMessage = str ''OK'', body = b, json = j,
      headers = [], durationMs = numberOfInt 10, error = None\<rparr>"

section \<open>An unresponsive target, to run the executor on examples\<close>

text \<open>
  An environment in which every URL parses to \<^verbatim>\<open>http://localhost:9200/_search\<close>, no
  file can be read, and the target accepts every request and never answers: a dispatched
  request times out when its timeout is truthy, and nothing at all happens to it
  otherwise (a timeout of \<^verbatim>\<open>0\<close> arms no timer).
\<close>

definition silentEnv :: Environment where
  "silentEnv =
     \<lparr>newURL = (\<lambda>u. Inr \<lparr>protocol = str ''http:'', hostname = str ''localhost'',
                           port = str ''9200'', pathname = str ''/_search'', search = []\<rparr>),
      base64 = (\<lambda>s. s),
      signRequest = (\<lambda>m u so. Fulfilled []),
      readFileSync = (\<lambda>p. Inl (ErrorObject (str ''ENOENT''))),
      httpRequest =
        (\<lambda>h ro b. if numberTruthy (RequestOptions.timeout ro) then TimeoutEvent else NoEvent),
      jsonParse = (\<lambda>b. Inl (str ''Unexpected token'')),
      startTime = 0,
      endTime = 30000\<rparr>"

text \<open>Options for a local cluster, with a password and a timeout or without.\<close>

definition localOptions :: "AuthType \<Rightarrow> jsstring option \<Rightarrow> jsnumber option \<Rightarrow> ExecuteOptions" where
  "localOptions a pw t =
     \<lparr>connection =
        \<lparr>id' = str ''1'', name = str ''local'', url = str ''http://localhost:9200'',
         authType = a, username = Some (str ''admin''), awsRegion = None, awsProfile = None,
         sslVerify = True, caCertPath = None\<rparr>,
      password = pw, awsCredentials = None, timeout = t\<rparr>"

text \<open>
  What the executor hands to \<^verbatim>\<open>http.request\<close> for \<^verbatim>\<open>GET /_search\<close> under these options
  with the password \<^verbatim>\<open>secret\<close> (the Base64 encoding of \<open>silentEnv\<close> is the identity).
\<close>

definition localRequestOptions :: "jsnumber \<Rightarrow> RequestOptions" where
  "localRequestOptions t =
     \<lparr>RequestOptions.method = str ''GET'', RequestOptions.hostname = str ''localhost'',
      RequestOptions.port = PortText (str ''9200''), RequestOptions.path = str ''/_search'',
      RequestOptions.headers =
        [(str ''Content-Type'', str ''application/json''),
         (str ''Accept'', str ''application/json''),
         (str ''Authorization'', str ''Basic admin:secret'')],
      RequestOptions.timeout = t,
      agent = None\<rparr>"

section \<open>Properties of the parser\<close>

subsection \<open>trim\<close>

lemma trimEnd_idem: "trimEnd (trimEnd s) = trimEnd s"
  unfolding trimEnd_def by simp

lemma trimEnd_hd: "trimEnd s \<noteq> [] \<Longrightarrow> \<not> isWhiteSpace (hd s) \<Longrightarrow> hd (trimEnd s) = hd s"
  unfolding trimEnd_def
  by (induction s rule: rev_induct) (auto simp: hd_append split: if_splits)

lemma trimStart_hd: "trimStart s \<noteq> [] \<Longrightarrow> \<not> isWhiteSpace (hd (trimStart s))"
  unfolding trimStart_def by (simp add: hd_dropWhile)

lemma trimStart_id: "s = [] \<or> \<not> isWhiteSpace (hd s) \<Longrightarrow> trimStart s = s"
  unfolding trimStart_def by (cases s) auto

lemma trim_hd: "trim s \<noteq> [] \<Longrightarrow> \<not> isWhiteSpace (hd (trim s))"
proof -
  assume ne: "trim s \<noteq> []"
  then have "trimStart s \<noteq> []" by (auto simp: trim_def trimEnd_def)
  then have "\<not> isWhiteSpace (hd (trimStart s))" by (rule trimStart_hd)
  with ne show ?thesis by (simp add: trim_def trimEnd_hd)
qed

lemma trim_idem: "trim (trim s) = trim s"
proof -
  have "trimStart (trim s) = trim s"
    using trim_hd [of s] by (intro trimStart_id) auto
  then show ?thesis by (simp add: trim_def trimEnd_idem)
qed

subsection \<open>request lines and comments\<close>

lemma matchLiteral_hd:
  "matchLiteral (p # ps) s = Some r \<Longrightarrow> s \<noteq> [] \<and> canonicalize (hd s) = p"
  by (cases s) (auto split: if_splits)

lemma methodName_hd: "\<exists>c cs. methodName m = c # cs \<and> 65 \<le> c \<and> c \<le> 90"
  by (cases m) (simp_all add: str_def)

lemma matchAlternatives_hd:
  "matchAlternatives ms s = Some x \<Longrightarrow> s \<noteq> [] \<and> 65 \<le> canonicalize (hd s) \<and> canonicalize (hd s) \<le> 90"
proof (induction ms)
  case Nil
  then show ?case by simp
next
  case (Cons m ms)
  obtain c cs where mn: "methodName m = c # cs" "65 \<le> c" "c \<le> 90"
    using methodName_hd by blast
  show ?case
  proof (cases "matchLiteral (methodName m) s")
    case None
    with Cons show ?thesis by simp
  next
    case (Some r)
    then show ?thesis using mn matchLiteral_hd [of c cs s r] by simp
  qed
qed

lemma requestLine_not_comment: "isRequestLine l \<Longrightarrow> \<not> isComment l"
proof
  assume rl: "isRequestLine l" and co: "isComment l"
  from rl obtain x where "matchAlternatives HTTP_METHODS (trim l) = Some x"
    by (auto simp: isRequestLine_def matchRequestLinePattern_def)
  then have "trim l \<noteq> []" and c: "65 \<le> canonicalize (hd (trim l))"
    using matchAlternatives_hd by blast+
  from co \<open>trim l \<noteq> []\<close> have "hd (trim l) = 35"
    by (cases "trim l") (auto simp: isComment_def)
  with c show False by (simp add: canonicalize_def)
qed

lemma isRequestLine_parse: "isRequestLine l \<longleftrightarrow> parseRequestLine l \<noteq> None"
  by (simp add: isRequestLine_def parseRequestLine_def)

subsection \<open>the three kinds of iteration\<close>

lemma step_comment: "isComment l \<Longrightarrow> step jp i l st = st"
  by (simp add: step_def)

lemma step_request:
  "parseRequestLine l = Some (m, p) \<Longrightarrow>
   step jp i l st = (closeOpen jp (i - 1) st)\<lparr>currentRequest := Some (m, p, i)\<rparr>"
  using requestLine_not_comment [of l]
  by (simp add: step_def isRequestLine_parse closeOpen_def)

lemma step_other:
  "\<not> isComment l \<Longrightarrow> \<not> isRequestLine l \<Longrightarrow>
   step jp i l st =
     (if currentRequest st \<noteq> None \<and> \<not> (bodyLines st = [] \<and> isBlankLine l)
      then st\<lparr>bodyLines := bodyLines st @ [l]\<rparr> else st)"
  by (simp add: step_def)

lemma step_cases:
  obtains (comment) "isComment l" "step jp i l st = st"
  | (request) m p where "\<not> isComment l" "isRequestLine l" "parseRequestLine l = Some (m, p)"
      "step jp i l st = (closeOpen jp (i - 1) st)\<lparr>currentRequest := Some (m, p, i)\<rparr>"
  | (other) "\<not> isComment l" "\<not> isRequestLine l"
      "step jp i l st =
        (if currentRequest st \<noteq> None \<and> \<not> (bodyLines st = [] \<and> isBlankLine l)
         then st\<lparr>bodyLines := bodyLines st @ [l]\<rparr> else st)"
proof (cases "isComment l")
  case True
  then show ?thesis using comment step_comment by blast
next
  case nc: False
  show ?thesis
  proof (cases "isRequestLine l")
    case True
    then obtain m p where "parseRequestLine l = Some (m, p)"
      by (auto simp: isRequestLine_parse)
    then show ?thesis using request nc True step_request by blast
  next
    case False
    then show ?thesis using other nc step_other by blast
  qed
qed

subsection \<open>finalizeRequest\<close>

lemma validate_trimmed:
  "b = trim x \<Longrightarrow> b \<noteq> [] \<Longrightarrow>
   validateJsonBody jp b = (case jp b of Inr v \<Rightarrow> Valid | Inl msg \<Rightarrow> Invalid msg)"
  by (simp add: validateJsonBody_def trim_idem)

lemma finalizeRequest_open:
  assumes "currentRequest st = Some (m, p, s)"
  shows "finalizeRequest jp e st =
     st\<lparr>requests := requests st @
           [\<lparr>method = m, path = p, body = bodyText (bodyLines st), startLine = s, endLine = e\<rparr>],
        errors := errors st @
           errorsOf jp \<lparr>method = m, path = p, body = bodyText (bodyLines st), startLine = s, endLine = e\<rparr>,
        currentRequest := None, bodyLines := []\<rparr>"
proof (cases "trim (join (bodyLines st)) = []")
  case True
  with assms show ?thesis
    by (simp add: finalizeRequest_def bodyText_def errorsOf_def)
next
  case False
  then show ?thesis using assms validate_trimmed [OF refl False, of jp]
    by (cases "jp (trim (join (bodyLines st)))")
       (simp_all add: finalizeRequest_def bodyText_def errorsOf_def Let_def)
qed

lemma closeOpen_None: "currentRequest st = None \<Longrightarrow> closeOpen jp e st = st"
  by (simp add: closeOpen_def)

lemma closeOpen_Some:
  "currentRequest st = Some (m, p, s) \<Longrightarrow>
   closeOpen jp e st =
     st\<lparr>requests := requests st @
           [\<lparr>method = m, path = p, body = bodyText (bodyLines st), startLine = s, endLine = e\<rparr>],
        errors := errors st @
           errorsOf jp \<lparr>method = m, path = p, body = bodyText (bodyLines st), startLine = s, endLine = e\<rparr>,
        currentRequest := None, bodyLines := []\<rparr>"
  by (simp add: closeOpen_def finalizeRequest_open)

lemma parseLoop_append:
  "parseLoop jp i (xs @ ys) st = parseLoop jp (i + int (length xs)) ys (parseLoop jp i xs st)"
  by (induction xs arbitrary: i st) (simp_all add: add.assoc)

lemma parseLoop_snoc:
  "parseLoop jp 0 (xs @ [l]) st = step jp (int (length xs)) l (parseLoop jp 0 xs st)"
  by (simp add: parseLoop_append)

lemma parseLines_alt:
  "requests (parseLines jp ls) =
     requests (closeOpen jp (int (length ls) - 1) (parseLoop jp 0 ls initial))"
  "errors (parseLines jp ls) =
     errors (closeOpen jp (int (length ls) - 1) (parseLoop jp 0 ls initial))"
  by (simp_all add: parseLines_def closeOpen_def Let_def)


subsection \<open>start lines\<close>

lemma requestLineIndices_snoc:
  "requestLineIndices (xs @ [l]) =
     requestLineIndices xs @ (if isRequestLine l then [int (length xs)] else [])"
proof -
  have "filter (\<lambda>i. isRequestLine ((xs @ [l]) ! i)) [0..<length xs] =
        filter (\<lambda>i. isRequestLine (xs ! i)) [0..<length xs]"
    by (rule filter_cong) (auto simp: nth_append)
  then show ?thesis by (simp add: requestLineIndices_def)
qed

lemma starts_run:
  "map startLine (requests (parseLoop jp 0 xs initial)) @ openStart (parseLoop jp 0 xs initial)
     = requestLineIndices xs"
proof (induction xs rule: rev_induct)
  case Nil
  show ?case by (simp add: initial_def openStart_def requestLineIndices_def)
next
  case (snoc l xs)
  let ?st = "parseLoop jp 0 xs initial"
  show ?case
  proof (cases rule: step_cases [where l = l and jp = jp and i = "int (length xs)" and st = ?st])
    case comment
    with snoc requestLine_not_comment [of l] show ?thesis
      by (auto simp: parseLoop_snoc requestLineIndices_snoc)
  next
    case (request m p)
    show ?thesis
    proof (cases "currentRequest ?st")
      case None
      with request snoc show ?thesis
        by (simp add: parseLoop_snoc requestLineIndices_snoc closeOpen_None openStart_def)
    next
      case (Some c)
      obtain m' p' s where c: "c = (m', p', s)" by (cases c)
      with Some request snoc show ?thesis
        by (simp add: parseLoop_snoc requestLineIndices_snoc closeOpen_Some openStart_def)
    qed
  next
    case other
    with snoc show ?thesis
      by (simp add: parseLoop_snoc requestLineIndices_snoc openStart_def)
  qed
qed

subsection \<open>spans\<close>

lemma spansOK_closeOpen:
  assumes "spansOK n st" "n \<le> e + 1"
  shows "spansOK (e + 1) (closeOpen jp e st)" "currentRequest (closeOpen jp e st) = None"
proof -
  show "currentRequest (closeOpen jp e st) = None"
    by (cases "currentRequest st") (auto simp: closeOpen_None closeOpen_Some)
  show "spansOK (e + 1) (closeOpen jp e st)"
  proof (cases "currentRequest st")
    case None
    with assms show ?thesis by (fastforce simp: closeOpen_None spansOK_def)
  next
    case (Some c)
    obtain m p s where c: "c = (m, p, s)" by (cases c)
    with Some assms show ?thesis
      by (fastforce simp: closeOpen_Some spansOK_def sorted_wrt_append)
  qed
qed

lemma spansOK_step:
  assumes "spansOK n st"
  shows "spansOK (n + 1) (step jp n l st)"
proof (cases rule: step_cases [where l = l and jp = jp and i = n and st = st])
  case comment
  with assms show ?thesis by (fastforce simp: spansOK_def)
next
  case (request m p)
  have a: "spansOK n (closeOpen jp (n - 1) st)" and b: "currentRequest (closeOpen jp (n - 1) st) = None"
    using spansOK_closeOpen [OF assms, of "n - 1" jp] by simp_all
  from a show ?thesis unfolding request(4) by (fastforce simp: spansOK_def)
next
  case other
  with assms show ?thesis by (fastforce simp: spansOK_def)
qed

lemma spansOK_run: "spansOK (int (length xs)) (parseLoop jp 0 xs initial)"
proof (induction xs rule: rev_induct)
  case Nil
  show ?case by (simp add: spansOK_def initial_def)
next
  case (snoc l xs)
  from spansOK_step [OF snoc, of jp l] show ?case
    by (simp add: parseLoop_snoc add.commute)
qed


subsection \<open>contents\<close>

lemma linesAfter_snoc:
  "0 \<le> s \<Longrightarrow> s \<le> e \<Longrightarrow> e < int (length xs) \<Longrightarrow>
   linesAfter (xs @ [l]) s e = linesAfter xs s e"
  by (simp add: linesAfter_def)

lemma linesAfter_all:
  "0 \<le> s \<Longrightarrow> s < int (length xs) \<Longrightarrow>
   linesAfter xs s (int (length xs) - 1) = drop (nat s + 1) xs"
  by (simp add: linesAfter_def)

lemma collect_snoc:
  "collect (ys @ [l]) =
     (if isComment l then collect ys
      else if collect ys = [] \<and> isBlankLine l then [] else collect ys @ [l])"
proof (cases "isComment l")
  case True
  then show ?thesis by (simp add: collect_def)
next
  case False
  then show ?thesis
    by (auto simp: collect_def dropWhile_append dropWhile_eq_Nil_conv)
qed

lemma contentOK_closeOpen:
  assumes c: "contentOK xs st" and s: "spansOK (int (length xs)) st"
  shows "contentOK xs (closeOpen jp (int (length xs) - 1) st)"
proof (cases "currentRequest st")
  case None
  with c show ?thesis by (simp add: closeOpen_None)
next
  case (Some c')
  obtain m p s' where c': "c' = (m, p, s')" by (cases c')
  from s Some c' have "0 \<le> s'" "s' < int (length xs)" by (auto simp: spansOK_def)
  then have "linesAfter xs s' (int (length xs) - 1) = drop (nat s' + 1) xs"
    by (rule linesAfter_all)
  with c Some c' show ?thesis
    by (auto simp: closeOpen_Some contentOK_def)
qed

lemma contentOK_step:
  assumes c: "contentOK xs st" and s: "spansOK (int (length xs)) st"
  shows "contentOK (xs @ [l]) (step jp (int (length xs)) l st)"
proof -
  have old: "\<forall>r\<in>set (requests st).
        parseRequestLine ((xs @ [l]) ! nat (startLine r)) = Some (method r, path r) \<and>
        body r = bodyText (collect (linesAfter (xs @ [l]) (startLine r) (endLine r)))"
    (is "\<forall>r\<in>_. ?good r")
  proof
    fix r assume r: "r \<in> set (requests st)"
    with s have b: "0 \<le> startLine r" "startLine r \<le> endLine r" "endLine r < int (length xs)"
      by (auto simp: spansOK_def)
    then have "nat (startLine r) < length xs" by simp
    then have "(xs @ [l]) ! nat (startLine r) = xs ! nat (startLine r)"
      by (simp add: nth_append)
    moreover have "linesAfter (xs @ [l]) (startLine r) (endLine r) = linesAfter xs (startLine r) (endLine r)"
      using b by (rule linesAfter_snoc)
    ultimately show "?good r"
      using c r by (simp add: contentOK_def)
  qed
  have cur: "0 \<le> s' \<and> s' < int (length xs) \<and>
      parseRequestLine ((xs @ [l]) ! nat s') = Some (m, p) \<and>
      bodyLines st = collect (drop (nat s' + 1) xs) \<and>
      drop (nat s' + 1) (xs @ [l]) = drop (nat s' + 1) xs @ [l]"
    if "currentRequest st = Some (m, p, s')" for m p s'
  proof -
    from that s have b: "0 \<le> s'" "s' < int (length xs)" by (auto simp: spansOK_def)
    then have "nat s' < length xs" by simp
    then have "(xs @ [l]) ! nat s' = xs ! nat s'" by (simp add: nth_append)
    with that c b show ?thesis by (simp add: contentOK_def)
  qed
  have new: "(xs @ [l]) ! nat (int (length xs)) = l" by simp
  show ?thesis
  proof (cases rule: step_cases [where l = l and jp = jp and i = "int (length xs)" and st = st])
    case comment
    show ?thesis
    proof (cases "currentRequest st")
      case None
      with c old comment show ?thesis by (simp add: contentOK_def)
    next
      case (Some c')
      obtain m p s' where c': "c' = (m, p, s')" by (cases c')
      from cur [of m p s'] Some c' old comment show ?thesis
        by (simp add: contentOK_def collect_snoc)
    qed
  next
    case (request m p)
    show ?thesis
    proof (cases "currentRequest st")
      case None
      with c old request new show ?thesis
        by (simp add: contentOK_def closeOpen_None collect_def)
    next
      case (Some c')
      obtain m' p' s' where c': "c' = (m', p', s')" by (cases c')
      have f: "0 \<le> s'" "s' < int (length xs)"
        "parseRequestLine ((xs @ [l]) ! nat s') = Some (m', p')"
        "bodyLines st = collect (drop (nat s' + 1) xs)"
        using cur [of m' p' s'] Some c' by simp_all
      have "linesAfter (xs @ [l]) s' (int (length xs) - 1) = drop (nat s' + 1) xs"
        using f(1,2) by (simp add: linesAfter_def)
      with f Some c' old request new show ?thesis
        by (simp add: contentOK_def closeOpen_Some collect_def)
    qed
  next
    case other
    show ?thesis
    proof (cases "currentRequest st")
      case None
      with c old other show ?thesis by (simp add: contentOK_def)
    next
      case (Some c')
      obtain m p s' where c': "c' = (m, p, s')" by (cases c')
      from cur [of m p s'] Some c' old other show ?thesis
        by (simp add: contentOK_def collect_snoc)
    qed
  qed
qed

lemma contentOK_run: "contentOK xs (parseLoop jp 0 xs initial)"
proof (induction xs rule: rev_induct)
  case Nil
  show ?case by (simp add: contentOK_def initial_def)
next
  case (snoc l xs)
  from contentOK_step [OF snoc spansOK_run, of l jp] show ?case
    by (simp add: parseLoop_snoc)
qed

subsection \<open>end lines\<close>

lemma endsOK_step: "endsOK st \<Longrightarrow> endsOK (step jp i l st)"
proof (cases rule: step_cases [where l = l and jp = jp and i = i and st = st])
  case comment
  then show "endsOK st \<Longrightarrow> ?thesis" by simp
next
  case (request m p)
  assume e: "endsOK st"
  show ?thesis
  proof (cases "currentRequest st")
    case None
    with e request show ?thesis
      by (simp add: endsOK_def closeOpen_None openStart_def)
  next
    case (Some c')
    obtain m' p' s' where c': "c' = (m', p', s')" by (cases c')
    with e Some request show ?thesis
      by (cases "requests st") (simp_all add: endsOK_def closeOpen_Some openStart_def)
  qed
next
  case other
  assume e: "endsOK st"
  with other show ?thesis by (simp add: endsOK_def openStart_def)
qed

lemma endsOK_loop: "endsOK st \<Longrightarrow> endsOK (parseLoop jp i xs st)"
  by (induction xs arbitrary: i st) (simp_all add: endsOK_step)

lemma endsOK_run: "endsOK (parseLoop jp 0 xs initial)"
  by (rule endsOK_loop) (simp add: endsOK_def initial_def openStart_def)

subsection \<open>errors\<close>

lemma errors_step:
  "errors st = concat (map (errorsOf jp) (requests st)) \<Longrightarrow>
   errors (step jp i l st) = concat (map (errorsOf jp) (requests (step jp i l st)))"
proof (cases rule: step_cases [where l = l and jp = jp and i = i and st = st])
  case comment
  then show "errors st = concat (map (errorsOf jp) (requests st)) \<Longrightarrow> ?thesis" by simp
next
  case (request m p)
  assume e: "errors st = concat (map (errorsOf jp) (requests st))"
  show ?thesis
  proof (cases "currentRequest st")
    case None
    with e request show ?thesis by (simp add: closeOpen_None)
  next
    case (Some c')
    obtain m' p' s' where c': "c' = (m', p', s')" by (cases c')
    with e Some request show ?thesis by (simp add: closeOpen_Some)
  qed
next
  case other
  assume e: "errors st = concat (map (errorsOf jp) (requests st))"
  with other show ?thesis by simp
qed

lemma errors_loop:
  "errors st = concat (map (errorsOf jp) (requests st)) \<Longrightarrow>
   errors (parseLoop jp i xs st) = concat (map (errorsOf jp) (requests (parseLoop jp i xs st)))"
  by (induction xs arbitrary: i st) (simp_all add: errors_step)

lemma errors_closeOpen:
  "errors st = concat (map (errorsOf jp) (requests st)) \<Longrightarrow>
   errors (closeOpen jp e st) = concat (map (errorsOf jp) (requests (closeOpen jp e st)))"
proof (cases "currentRequest st")
  case None
  then show "errors st = concat (map (errorsOf jp) (requests st)) \<Longrightarrow> ?thesis"
    by (simp add: closeOpen_None)
next
  case (Some c')
  obtain m' p' s' where c': "c' = (m', p', s')" by (cases c')
  assume "errors st = concat (map (errorsOf jp) (requests st))"
  with Some c' show ?thesis by (simp add: closeOpen_Some)
qed


subsection \<open>independence of the validity of bodies\<close>

lemma sameRequests_closeOpen:
  "sameRequests st st' \<Longrightarrow> sameRequests (closeOpen jp e st) (closeOpen jp' e st')"
proof (cases "currentRequest st")
  case None
  then show "sameRequests st st' \<Longrightarrow> ?thesis"
    by (simp add: sameRequests_def closeOpen_None)
next
  case (Some c')
  obtain m p s where c': "c' = (m, p, s)" by (cases c')
  assume a: "sameRequests st st'"
  with Some c' have "currentRequest st' = Some (m, p, s)" by (simp add: sameRequests_def)
  with a Some c' show ?thesis
    by (simp add: sameRequests_def closeOpen_Some)
qed

lemma sameRequests_step:
  assumes "sameRequests st st'"
  shows "sameRequests (step jp i l st) (step jp' i l st')"
proof (cases rule: step_cases [where l = l and jp = jp and i = i and st = st])
  case comment
  with assms show ?thesis by (simp add: step_comment)
next
  case (request m p)
  from sameRequests_closeOpen [OF assms, of jp "i - 1" jp'] show ?thesis
    unfolding request(4) step_request [OF request(3)]
    by (simp add: sameRequests_def)
next
  case other
  with assms show ?thesis
    by (simp add: step_other sameRequests_def)
qed

lemma sameRequests_loop:
  "sameRequests st st' \<Longrightarrow> sameRequests (parseLoop jp i xs st) (parseLoop jp' i xs st')"
  by (induction xs arbitrary: i st st') (simp_all add: sameRequests_step)

lemma requests_parseLines_indep:
  "requests (parseLines jp ls) = requests (parseLines jp' ls)"
proof -
  have "sameRequests initial initial" by (simp add: sameRequests_def)
  then have "sameRequests (closeOpen jp (int (length ls) - 1) (parseLoop jp 0 ls initial))
                          (closeOpen jp' (int (length ls) - 1) (parseLoop jp' 0 ls initial))"
    by (intro sameRequests_closeOpen sameRequests_loop)
  then show ?thesis by (simp add: parseLines_alt sameRequests_def)
qed

subsection \<open>independence of the line numbers\<close>

lemma message_errorsOf:
  "body r = body r' \<Longrightarrow> map message (errorsOf jp r) = map message (errorsOf jp r')"
  by (simp add: errorsOf_def split: option.splits sum.splits)

lemma sameContent_closeOpen:
  assumes "sameContent st st'"
  shows "sameContent (closeOpen jp e st) (closeOpen jp e' st')"
proof (cases "currentRequest st")
  case None
  with assms have "currentRequest st' = None" by (simp add: sameContent_def)
  with None assms show ?thesis by (simp add: closeOpen_None)
next
  case (Some c)
  obtain m p s where c: "c = (m, p, s)" by (cases c)
  from assms Some c have "map_option (\<lambda>(m, p, s). (m, p)) (currentRequest st') = Some (m, p)"
    by (simp add: sameContent_def)
  then obtain s' where c': "currentRequest st' = Some (m, p, s')"
    by (cases "currentRequest st'") auto
  have "map message (errorsOf jp \<lparr>method = m, path = p, body = bodyText (bodyLines st'), startLine = s, endLine = e\<rparr>)
      = map message (errorsOf jp \<lparr>method = m, path = p, body = bodyText (bodyLines st'), startLine = s', endLine = e'\<rparr>)"
    by (rule message_errorsOf) simp
  with assms Some c c' show ?thesis
    by (simp add: closeOpen_Some sameContent_def lineless_def)
qed

lemma sameContent_step:
  assumes "sameContent st st'"
  shows "sameContent (step jp i l st) (step jp j l st')"
proof (cases rule: step_cases [where l = l and jp = jp and i = i and st = st])
  case comment
  with assms show ?thesis by (simp add: step_comment)
next
  case (request m p)
  from sameContent_closeOpen [OF assms, of jp "i - 1" "j - 1"] show ?thesis
    unfolding request(4) step_request [OF request(3)]
    by (simp add: sameContent_def)
next
  case other
  from assms have "currentRequest st = None \<longleftrightarrow> currentRequest st' = None"
    by (auto simp: sameContent_def)
  with other assms show ?thesis
    by (simp add: step_other sameContent_def)
qed

lemma sameContent_loop:
  "sameContent st st' \<Longrightarrow> sameContent (parseLoop jp i xs st) (parseLoop jp j xs st')"
  by (induction xs arbitrary: i j st st') (simp_all add: sameContent_step)

lemma parseLines_delete_comment:
  assumes "isComment c"
  shows "sameContent (closeOpen jp (int (length (xs @ c # ys)) - 1) (parseLoop jp 0 (xs @ c # ys) initial))
                     (closeOpen jp (int (length (xs @ ys)) - 1) (parseLoop jp 0 (xs @ ys) initial))"
proof -
  let ?st = "parseLoop jp 0 xs initial"
  have "parseLoop jp 0 (xs @ c # ys) initial = parseLoop jp (int (length xs) + 1) ys ?st"
    using assms by (simp add: parseLoop_append step_comment)
  moreover have "parseLoop jp 0 (xs @ ys) initial = parseLoop jp (int (length xs)) ys ?st"
    by (simp add: parseLoop_append)
  moreover have "sameContent ?st ?st" by (simp add: sameContent_def)
  ultimately show ?thesis
    by (simp only: sameContent_closeOpen sameContent_loop)
qed

subsection \<open>the body of a block of lines\<close>

lemma trimEnd_eq_Nil: "trimEnd s = [] \<longleftrightarrow> (\<forall>c\<in>set s. isWhiteSpace c)"
  unfolding trimEnd_def by (simp add: dropWhile_eq_Nil_conv)

lemma trimStart_eq_Nil: "trimStart s = [] \<longleftrightarrow> (\<forall>c\<in>set s. isWhiteSpace c)"
  unfolding trimStart_def by (simp add: dropWhile_eq_Nil_conv)

lemma trim_eq_Nil: "trim s = [] \<longleftrightarrow> (\<forall>c\<in>set s. isWhiteSpace c)"
proof
  assume "trim s = []"
  then have a: "\<forall>c\<in>set (trimStart s). isWhiteSpace c" by (simp add: trim_def trimEnd_eq_Nil)
  have "trimStart s = []"
  proof (rule ccontr)
    assume ne: "trimStart s \<noteq> []"
    then have "\<not> isWhiteSpace (hd (trimStart s))" by (rule trimStart_hd)
    with a ne show False by (cases "trimStart s") auto
  qed
  then show "\<forall>c\<in>set s. isWhiteSpace c" by (simp add: trimStart_eq_Nil)
next
  assume "\<forall>c\<in>set s. isWhiteSpace c"
  then have "trimStart s = []" by (simp add: trimStart_eq_Nil)
  then show "trim s = []" by (simp add: trim_def trimEnd_def)
qed

lemma blank_iff: "isBlankLine l \<longleftrightarrow> (\<forall>c\<in>set l. isWhiteSpace c)"
  by (simp add: isBlankLine_def trim_eq_Nil)

lemma trimStart_append: "\<not> isBlankLine a \<Longrightarrow> trimStart (a @ x) = trimStart a @ x"
  unfolding trimStart_def blank_iff by (auto simp: dropWhile_append)

lemma trimEnd_append: "\<not> isBlankLine z \<Longrightarrow> trimEnd (y @ z) = y @ trimEnd z"
  unfolding trimEnd_def blank_iff by (auto simp: dropWhile_append)

lemma trimEnd_append_ws: "\<forall>c\<in>set w. isWhiteSpace c \<Longrightarrow> trimEnd (t @ w) = trimEnd t"
  unfolding trimEnd_def by (simp add: dropWhile_append)

lemma trim_append_ws:
  assumes "\<forall>c\<in>set w. isWhiteSpace c"
  shows "trim (t @ w) = trim t"
proof (cases "isBlankLine t")
  case True
  with assms have "trim (t @ w) = []" "trim t = []"
    by (auto simp: trim_eq_Nil blank_iff)
  then show ?thesis by simp
next
  case False
  with assms show ?thesis
    by (simp add: trim_def trimStart_append trimEnd_append_ws)
qed

lemma join_snoc: "join (ys @ [z]) = (if ys = [] then z else join ys @ 10 # z)"
  by (induction ys rule: join.induct) auto

lemma join_Cons: "join (a # ys) = (if ys = [] then a else a @ 10 # join ys)"
  by (cases ys) auto

lemma isWhiteSpace_LF: "isWhiteSpace 10"
  by (simp add: isWhiteSpace_def)

lemma trim_join_snoc_blank:
  assumes "isBlankLine b"
  shows "trim (join (ys @ [b])) = trim (join ys)"
proof (cases "ys = []")
  case True
  with assms show ?thesis by (simp add: isBlankLine_def trim_def trimStart_def trimEnd_def)
next
  case False
  have "\<forall>c\<in>set (10 # b). isWhiteSpace c"
    using assms by (simp add: blank_iff isWhiteSpace_LF)
  from trim_append_ws [OF this, of "join ys"] False show ?thesis
    by (simp add: join_snoc)
qed

lemma trim_join_dropBlankEnd:
  "trim (join (dropBlankEnd xs)) = trim (join xs)"
proof (induction xs rule: rev_induct)
  case Nil
  show ?case by (simp add: dropBlankEnd_def)
next
  case (snoc b xs)
  show ?case
  proof (cases "isBlankLine b")
    case True
    with snoc show ?thesis by (simp add: dropBlankEnd_def trim_join_snoc_blank)
  next
    case False
    then show ?thesis by (simp add: dropBlankEnd_def)
  qed
qed

lemma dropBlankEnd_cases:
  "dropBlankEnd xs = [] \<or> \<not> isBlankLine (last (dropBlankEnd xs))"
proof (cases "dropWhile isBlankLine (rev xs)")
  case Nil
  then show ?thesis by (simp add: dropBlankEnd_def)
next
  case (Cons a list)
  then have "dropWhile isBlankLine (rev xs) \<noteq> []" by simp
  then have "\<not> isBlankLine (hd (dropWhile isBlankLine (rev xs)))" by (rule hd_dropWhile)
  with Cons show ?thesis by (simp add: dropBlankEnd_def)
qed

lemma dropBlankEnd_hd:
  "dropBlankEnd xs \<noteq> [] \<Longrightarrow> hd (dropBlankEnd xs) = hd xs"
  unfolding dropBlankEnd_def
  by (induction xs rule: rev_induct) (auto simp: hd_append split: if_splits)

lemma trim_join_ends:
  assumes a: "\<not> isBlankLine a" and r: "rest \<noteq> []" and z: "\<not> isBlankLine (last rest)"
  shows "trim (join (a # rest)) = join (trimStart a # butlast rest @ [trimEnd (last rest)])"
proof -
  have rest: "rest = butlast rest @ [last rest]" using r by simp
  have nb: "\<not> isBlankLine (10 # join rest)"
  proof -
    from z obtain c where "c \<in> set (last rest)" "\<not> isWhiteSpace c" by (auto simp: blank_iff)
    moreover have "set (last rest) \<subseteq> set (join rest)"
      by (subst (2) rest) (auto simp: join_snoc)
    ultimately show ?thesis by (auto simp: blank_iff)
  qed
  have e: "trimEnd (join rest) = join (butlast rest @ [trimEnd (last rest)])"
  proof (cases "butlast rest = []")
    case True
    with rest have "rest = [last rest]" by simp
    then have "join rest = last rest" by (metis join.simps(2))
    with True show ?thesis by simp
  next
    case False
    have "join rest = join (butlast rest) @ 10 # last rest"
      by (subst rest) (simp add: join_snoc False)
    moreover have "trimEnd ((join (butlast rest) @ [10]) @ last rest) = (join (butlast rest) @ [10]) @ trimEnd (last rest)"
      using z by (rule trimEnd_append)
    ultimately show ?thesis using False by (simp add: join_snoc)
  qed
  have "trim (join (a # rest)) = trimEnd (trimStart a @ 10 # join rest)"
    using a r by (simp add: join_Cons trim_def trimStart_append)
  also have "\<dots> = trimStart a @ trimEnd (10 # join rest)"
    using nb by (rule trimEnd_append)
  also have "trimEnd (10 # join rest) = 10 # trimEnd (join rest)"
  proof -
    have "\<not> isBlankLine (join rest)" using nb by (simp add: blank_iff isWhiteSpace_LF)
    from trimEnd_append [OF this, of "[10]"] show ?thesis by simp
  qed
  finally show ?thesis using e by (simp add: join_Cons)
qed

lemma bodyText_collect: "bodyText (collect seg) = bodyOfLines seg"
proof -
  let ?xs = "collect seg"
  let ?ls = "dropBlankEnd ?xs"
  have t: "trim (join ?xs) = trim (join ?ls)" by (simp add: trim_join_dropBlankEnd)
  show ?thesis
  proof (cases ?ls)
    case Nil
    with t show ?thesis by (simp add: bodyText_def bodyOfLines_def collect_def trim_def trimStart_def trimEnd_def)
  next
    case (Cons a rest)
    have "?xs \<noteq> []" using Cons by (auto simp: dropBlankEnd_def)
    then have "\<not> isBlankLine (hd ?xs)" unfolding collect_def by (rule hd_dropWhile)
    with dropBlankEnd_hd [of ?xs] Cons have a: "\<not> isBlankLine a" by simp
    from dropBlankEnd_cases [of ?xs] Cons have z: "\<not> isBlankLine (last (a # rest))" by simp
    have ne: "trim (join ?ls) \<noteq> []"
    proof -
      from a obtain c where "c \<in> set a" "\<not> isWhiteSpace c" by (auto simp: blank_iff)
      moreover have "set a \<subseteq> set (join (a # rest))" by (auto simp: join_Cons)
      ultimately show ?thesis unfolding Cons by (auto simp: trim_eq_Nil)
    qed
    show ?thesis
    proof (cases rest)
      case Nil
      with Cons t ne show ?thesis
        by (simp add: bodyText_def bodyOfLines_def collect_def)
    next
      case (Cons b rest')
      then have r: "rest \<noteq> []" by simp
      with z have "\<not> isBlankLine (last rest)" by simp
      from trim_join_ends [OF a r this] t ne \<open>?ls = a # rest\<close> Cons show ?thesis
        by (simp add: bodyText_def bodyOfLines_def collect_def)
    qed
  qed
qed

subsection \<open>the result of parseLines\<close>

lemma parseLines_starts:
  "map startLine (requests (parseLines jp ls)) = requestLineIndices ls"
proof -
  let ?st = "parseLoop jp 0 ls initial"
  have s: "map startLine (requests ?st) @ openStart ?st = requestLineIndices ls"
    by (rule starts_run)
  show ?thesis
  proof (cases "currentRequest ?st")
    case None
    with s show ?thesis
      by (simp add: parseLines_alt closeOpen_None openStart_def)
  next
    case (Some c)
    obtain m p s' where "c = (m, p, s')" by (cases c)
    with Some s show ?thesis
      by (simp add: parseLines_alt closeOpen_Some openStart_def)
  qed
qed

lemma parseLines_spansOK:
  "spansOK (int (length ls)) (closeOpen jp (int (length ls) - 1) (parseLoop jp 0 ls initial))"
  using spansOK_closeOpen(1) [OF spansOK_run, of ls "int (length ls) - 1" jp jp] by simp

lemma parseLines_spans:
  "list_all (\<lambda>r. startLine r \<le> endLine r) (requests (parseLines jp ls)) \<and>
   sorted_wrt (\<lambda>a b. endLine a < startLine b) (requests (parseLines jp ls))"
  using parseLines_spansOK [of ls jp]
  by (simp add: parseLines_alt spansOK_def list_all_iff)

lemma parseLines_content:
  assumes "r \<in> set (requests (parseLines jp ls))"
  shows "parseRequestLine (ls ! nat (startLine r)) = Some (method r, path r)"
    and "body r = bodyOfLines (linesAfter ls (startLine r) (endLine r))"
proof -
  have "contentOK ls (closeOpen jp (int (length ls) - 1) (parseLoop jp 0 ls initial))"
    by (rule contentOK_closeOpen [OF contentOK_run spansOK_run])
  with assms show "parseRequestLine (ls ! nat (startLine r)) = Some (method r, path r)"
    and "body r = bodyOfLines (linesAfter ls (startLine r) (endLine r))"
    by (simp_all add: parseLines_alt contentOK_def bodyText_collect)
qed

lemma parseLines_ends:
  "map endLine (requests (parseLines jp ls)) =
     map (\<lambda>s. s - 1) (tl (map startLine (requests (parseLines jp ls)))) @
     (if requests (parseLines jp ls) = [] then [] else [int (length ls) - 1])"
proof -
  let ?st = "parseLoop jp 0 ls initial"
  have e: "endsOK ?st" by (rule endsOK_run)
  show ?thesis
  proof (cases "currentRequest ?st")
    case None
    with e show ?thesis
      by (simp add: parseLines_alt closeOpen_None endsOK_def)
  next
    case (Some c)
    obtain m p s' where "c = (m, p, s')" by (cases c)
    with Some e show ?thesis
      by (cases "requests ?st") (simp_all add: parseLines_alt closeOpen_Some endsOK_def openStart_def)
  qed
qed

lemma parseLines_errors:
  "errors (parseLines jp ls) = concat (map (errorsOf jp) (requests (parseLines jp ls)))"
proof -
  have "errors initial = concat (map (errorsOf jp) (requests initial))"
    by (simp add: initial_def)
  then have "errors (closeOpen jp (int (length ls) - 1) (parseLoop jp 0 ls initial)) =
      concat (map (errorsOf jp) (requests (closeOpen jp (int (length ls) - 1) (parseLoop jp 0 ls initial))))"
    by (intro errors_closeOpen errors_loop)
  then show ?thesis by (simp add: parseLines_alt)
qed

lemma requestLineIndices_lines:
  "map (\<lambda>i. ls ! nat i) (requestLineIndices ls) = filter isRequestLine ls"
proof -
  have "filter isRequestLine ls = filter isRequestLine (map (nth ls) [0..<length ls])"
    by (simp add: map_nth)
  also have "\<dots> = map (nth ls) (filter (\<lambda>i. isRequestLine (ls ! i)) [0..<length ls])"
    by (simp add: filter_map comp_def)
  finally show ?thesis
    by (simp add: requestLineIndices_def comp_def)
qed

lemma requestLineIndices_length:
  "length (requestLineIndices ls) = length (filter isRequestLine ls)"
  using arg_cong [OF requestLineIndices_lines [of ls], of length] by simp

lemma requestLineIndices_sorted: "sorted_wrt (<) (requestLineIndices ls)"
proof -
  have "sorted_wrt (<) (filter (\<lambda>i. isRequestLine (ls ! i)) [0..<length ls])"
    by (rule sorted_wrt_filter) simp
  then show ?thesis
    by (simp add: requestLineIndices_def sorted_wrt_map)
qed

lemma parseLines_methods_paths:
  "map (\<lambda>r. Some (method r, path r)) (requests (parseLines jp ls)) =
   map parseRequestLine (filter isRequestLine ls)"
proof -
  let ?rs = "requests (parseLines jp ls)"
  have "map (\<lambda>r. Some (method r, path r)) ?rs = map (\<lambda>r. parseRequestLine (ls ! nat (startLine r))) ?rs"
    by (rule map_cong) (simp_all add: parseLines_content(1))
  also have "\<dots> = map parseRequestLine (map (\<lambda>i. ls ! nat i) (map startLine ?rs))"
    by (simp add: comp_def)
  also have "\<dots> = map parseRequestLine (filter isRequestLine ls)"
    by (simp only: parseLines_starts requestLineIndices_lines)
  finally show ?thesis .
qed

subsection \<open>Runs on concrete documents\<close>

lemma jsonValue_numeral: "jsonValue (numeral k) s = jsonValue (Suc (pred_numeral k)) s"
  by (simp add: numeral_eq_Suc)

lemma jsonMembers_numeral: "jsonMembers (numeral k) s = jsonMembers (Suc (pred_numeral k)) s"
  by (simp add: numeral_eq_Suc)

lemma jsonElements_numeral: "jsonElements (numeral k) s = jsonElements (Suc (pred_numeral k)) s"
  by (simp add: numeral_eq_Suc)

lemmas ws_eval = trim_def trimStart_def trimEnd_def isWhiteSpace_def
lemmas rl_eval = matchRequestLinePattern_def HTTP_METHODS_def canonicalize_def matchTail_def
  isWhiteSpace_def
lemmas json_eval = jsonCheck_def jsonAccepts_def skipWs_def isJsonWs_def jsonValue_numeral
  jsonMembers_numeral jsonElements_numeral jsonNumber_def isDigit_def jsonKeyword_def

lemma trim_examples:
  "trim (str ''POST /my-index/_search'') = str ''POST /my-index/_search''"
  "trim (str ''{invalid json}'') = str ''{invalid json}''"
  "trim (str ''POST /x'') = str ''POST /x''"
  "trim (str ''GET /y'') = str ''GET /y''"
  "trim (str ''# c'') = str ''# c''"
  "trim (str ''{'') = str ''{''"
  "trim (str ''}'') = str ''}''"
  "trim [] = []"
  by (simp_all add: str_def ws_eval)

lemma pattern_examples:
  "matchRequestLinePattern (str ''POST /my-index/_search'') = Some (POST, str ''/my-index/_search'')"
  "matchRequestLinePattern (str ''POST /x'') = Some (POST, str ''/x'')"
  "matchRequestLinePattern (str ''GET /y'') = Some (GET, str ''/y'')"
  "matchRequestLinePattern (str ''{invalid json}'') = None"
  "matchRequestLinePattern (str ''{'') = None"
  "matchRequestLinePattern (str ''}'') = None"
  "matchRequestLinePattern [] = None"
  by (simp_all add: str_def rl_eval)

lemma request_line_examples:
  "parseRequestLine (str ''POST /my-index/_search'') = Some (POST, str ''/my-index/_search'')"
  "parseRequestLine (str ''POST /x'') = Some (POST, str ''/x'')"
  "parseRequestLine (str ''GET /y'') = Some (GET, str ''/y'')"
  by (simp_all only: parseRequestLine_def trim_examples pattern_examples)

lemma other_line_examples:
  "\<not> isRequestLine (str ''{invalid json}'')" "\<not> isComment (str ''{invalid json}'')"
  "\<not> isBlankLine (str ''{invalid json}'')"
  "\<not> isRequestLine (str ''{'')" "\<not> isComment (str ''{'')" "\<not> isBlankLine (str ''{'')"
  "\<not> isRequestLine (str ''}'')" "\<not> isComment (str ''}'')" "\<not> isBlankLine (str ''}'')"
  "\<not> isRequestLine []" "\<not> isComment []" "isBlankLine []"
  "isComment (str ''# c'')"
  by (simp_all add: isRequestLine_def isComment_def isBlankLine_def trim_examples pattern_examples)
     (simp_all add: str_def)

lemma body_examples:
  "bodyText [] = None"
  "bodyText [str ''{invalid json}''] = Some (str ''{invalid json}'')"
  "bodyText [str ''{'', [], str ''}'', []] = Some (str ''{\<newline>\<newline>}'')"
  by (simp_all add: bodyText_def str_def ws_eval)

lemma json_examples:
  "jsonCheck (str ''{invalid json}'') = Inl (str ''Unexpected token'')"
  "jsonCheck (str ''{\<newline>\<newline>}'') = Inr ()"
  by (simp_all add: str_def json_eval del: Suc_numeral)

lemmas run_eval = parseOsdevFile_def parseLines_alt step_request [OF request_line_examples(1)]
  step_request [OF request_line_examples(2)] step_request [OF request_line_examples(3)]
  step_other step_comment other_line_examples closeOpen_Some closeOpen_None initial_def
  body_examples errorsOf_def json_examples

lemma invalid_lines:
  "split 10 (str ''POST /my-index/_search\<newline>{invalid json}'') =
     [str ''POST /my-index/_search'', str ''{invalid json}'']"
  by (simp add: str_def)

lemma invalid_run:
  "requests (parseOsdevFile jsonCheck (str ''POST /my-index/_search\<newline>{invalid json}'')) =
     [\<lparr>method = POST, path = str ''/my-index/_search'', body = Some (str ''{invalid json}''),
       startLine = 0, endLine = 1\<rparr>]"
  "errors (parseOsdevFile jsonCheck (str ''POST /my-index/_search\<newline>{invalid json}'')) =
     [\<lparr>message = str ''Invalid JSON body: Unexpected token'', line = 1\<rparr>]"
  by (simp_all add: run_eval invalid_lines) (simp add: str_def)

lemma blanks_lines:
  "split 10 blanksDocument =
     [str ''POST /x'', [], str ''{'', str ''# c'', [], str ''}'', [], str ''GET /y'']"
  by (simp add: str_def blanksDocument_def)

lemma blanks_run:
  "requests (parseOsdevFile jsonCheck blanksDocument) =
     [\<lparr>method = POST, path = str ''/x'', body = Some (str ''{\<newline>\<newline>}''),
       startLine = 0, endLine = 6\<rparr>,
      \<lparr>method = GET, path = str ''/y'', body = None, startLine = 7, endLine = 7\<rparr>]"
  "errors (parseOsdevFile jsonCheck blanksDocument) = []"
  by (simp_all add: run_eval blanks_lines)

subsection \<open>Requests and request lines\<close>

lemma requestLineIndices_member:
  "i \<in> set (requestLineIndices ls) \<Longrightarrow> isRequestLine (ls ! nat i)"
  by (auto simp: requestLineIndices_def)

text \<open>
  Claim C5. For every input text, the parser emits exactly one request per line that
  matches the request-line pattern: the start lines of the emitted requests are the
  indices of the matching lines, in document order (increasing, hence non-decreasing),
  with the method and path of each such line. Every request has
  \<open>startLine \<le> endLine\<close>, and each request ends before the next one starts, so no two
  spans overlap.
\<close>

theorem parse_one_request_per_request_line:
  "map startLine (requests (parseOsdevFile jp content)) = requestLineIndices (split 10 content) \<and>
   length (requests (parseOsdevFile jp content)) = length (filter isRequestLine (split 10 content)) \<and>
   map (\<lambda>r. Some (method r, path r)) (requests (parseOsdevFile jp content)) =
     map parseRequestLine (filter isRequestLine (split 10 content)) \<and>
   sorted_wrt (<) (map startLine (requests (parseOsdevFile jp content))) \<and>
   list_all (\<lambda>r. startLine r \<le> endLine r) (requests (parseOsdevFile jp content)) \<and>
   sorted_wrt (\<lambda>a b. endLine a < startLine b) (requests (parseOsdevFile jp content))"
proof -
  let ?ls = "split 10 content"
  have s: "map startLine (requests (parseLines jp ?ls)) = requestLineIndices ?ls"
    by (rule parseLines_starts)
  have "length (requests (parseLines jp ?ls)) = length (requestLineIndices ?ls)"
    using arg_cong [OF s, of length] by simp
  then have l: "length (requests (parseLines jp ?ls)) = length (filter isRequestLine ?ls)"
    by (simp add: requestLineIndices_length)
  have o: "sorted_wrt (<) (map startLine (requests (parseLines jp ?ls)))"
    unfolding s by (rule requestLineIndices_sorted)
  from s l o parseLines_methods_paths [of jp ?ls] parseLines_spans [of jp ?ls]
  show ?thesis unfolding parseOsdevFile_def by blast
qed

subsection \<open>Parse errors\<close>

text \<open>
  Claim C2, as stated, fails: the line of a parse error is not the start line of its
  request. On the document of the specification's scenario the request starts on line 0
  and the error carries line 1.
\<close>

theorem parse_error_line_counterexample:
  "map startLine (requests (parseOsdevFile jsonCheck
      (str ''POST /my-index/_search\<newline>{invalid json}''))) = [0] \<and>
   map line (errors (parseOsdevFile jsonCheck
      (str ''POST /my-index/_search\<newline>{invalid json}''))) = [1]"
  by (simp add: invalid_run)

text \<open>
  Claim C2, amended. For every input text, the errors are exactly these, in the order of
  the requests: one error for each emitted request whose (non-empty) body
  \<^verbatim>\<open>JSON.parse\<close> rejects, its message the text \<^verbatim>\<open>Invalid JSON body: \<close> followed by
  the reason, and its line the request's start line plus one, the line that follows the
  request line. A request with no body or with a body that parses has no error.
\<close>

theorem parse_error_per_rejected_body:
  "errors (parseOsdevFile jp content) =
     concat (map (errorsOf jp) (requests (parseOsdevFile jp content)))"
  unfolding parseOsdevFile_def by (rule parseLines_errors)

text \<open>
  Claim C6. A body that is not valid JSON never keeps its request from being emitted:
  the emitted requests, bodies included, are those of a run in which every body parses,
  and every parse error belongs to an emitted request that carries the rejected body.
\<close>

theorem malformed_body_request_emitted:
  "requests (parseOsdevFile jp content) =
     requests (parseOsdevFile (\<lambda>b. Inr () :: jsstring + unit) content) \<and>
   (\<forall>e\<in>set (errors (parseOsdevFile jp content)).
      \<exists>r\<in>set (requests (parseOsdevFile jp content)). \<exists>b msg.
        body r = Some b \<and> jp b = Inl msg \<and>
        e = \<lparr>message = str ''Invalid JSON body: '' @ msg, line = startLine r + 1\<rparr>)"
proof
  show "requests (parseOsdevFile jp content) =
     requests (parseOsdevFile (\<lambda>b. Inr () :: jsstring + unit) content)"
    unfolding parseOsdevFile_def by (rule requests_parseLines_indep)
next
  let ?res = "parseOsdevFile jp content"
  show "\<forall>e\<in>set (errors ?res). \<exists>r\<in>set (requests ?res). \<exists>b msg.
        body r = Some b \<and> jp b = Inl msg \<and>
        e = \<lparr>message = str ''Invalid JSON body: '' @ msg, line = startLine r + 1\<rparr>"
  proof
    fix e assume "e \<in> set (errors ?res)"
    then have "e \<in> set (concat (map (errorsOf jp) (requests ?res)))"
      unfolding parseOsdevFile_def by (simp add: parseLines_errors [symmetric])
    then obtain r where r: "r \<in> set (requests ?res)" and e: "e \<in> set (errorsOf jp r)"
      by auto
    from e obtain b where b: "body r = Some b"
      by (cases "body r") (auto simp: errorsOf_def)
    with e obtain msg where m: "jp b = Inl msg"
      by (cases "jp b") (auto simp: errorsOf_def)
    with e b have "e = \<lparr>message = str ''Invalid JSON body: '' @ msg, line = startLine r + 1\<rparr>"
      by (simp add: errorsOf_def)
    with r b m show "\<exists>r\<in>set (requests ?res). \<exists>b msg.
        body r = Some b \<and> jp b = Inl msg \<and>
        e = \<lparr>message = str ''Invalid JSON body: '' @ msg, line = startLine r + 1\<rparr>"
      by blast
  qed
qed

theorem malformed_body_request_emitted_witness:
  "\<lparr>message = str ''Invalid JSON body: Unexpected token'', line = 1\<rparr>
     \<in> set (errors (parseOsdevFile jsonCheck (str ''POST /my-index/_search\<newline>{invalid json}''))) \<and>
   requests (parseOsdevFile (\<lambda>b. Inr () :: jsstring + unit)
       (str ''POST /my-index/_search\<newline>{invalid json}'')) =
     [\<lparr>method = POST, path = str ''/my-index/_search'', body = Some (str ''{invalid json}''),
       startLine = 0, endLine = 1\<rparr>] \<and>
   (\<exists>r\<in>set (requests (parseOsdevFile jsonCheck (str ''POST /my-index/_search\<newline>{invalid json}''))).
      \<exists>b msg. body r = Some b \<and> jsonCheck b = Inl msg \<and>
        \<lparr>message = str ''Invalid JSON body: Unexpected token'', line = 1\<rparr> =
        \<lparr>message = str ''Invalid JSON body: '' @ msg, line = startLine r + 1\<rparr>)"
proof -
  let ?doc = "str ''POST /my-index/_search\<newline>{invalid json}''"
  let ?e = "\<lparr>message = str ''Invalid JSON body: Unexpected token'', line = 1\<rparr>"
  have e: "?e \<in> set (errors (parseOsdevFile jsonCheck ?doc))"
    by (simp add: invalid_run)
  from malformed_body_request_emitted [of jsonCheck ?doc]
  have a: "requests (parseOsdevFile jsonCheck ?doc) =
      requests (parseOsdevFile (\<lambda>b. Inr () :: jsstring + unit) ?doc)"
    and b: "\<forall>e\<in>set (errors (parseOsdevFile jsonCheck ?doc)).
      \<exists>r\<in>set (requests (parseOsdevFile jsonCheck ?doc)). \<exists>b msg.
        body r = Some b \<and> jsonCheck b = Inl msg \<and>
        e = \<lparr>message = str ''Invalid JSON body: '' @ msg, line = startLine r + 1\<rparr>"
    by blast+
  from a [symmetric] have "requests (parseOsdevFile (\<lambda>b. Inr () :: jsstring + unit) ?doc) =
     [\<lparr>method = POST, path = str ''/my-index/_search'', body = Some (str ''{invalid json}''),
       startLine = 0, endLine = 1\<rparr>]"
    by (simp add: invalid_run)
  with e bspec [OF b e] show ?thesis by blast
qed

subsection \<open>Comment lines\<close>

text \<open>
  Claim C4. A line whose trimmed form begins with \<^verbatim>\<open>#\<close> is skipped entirely: the
  document parses as it does with that line deleted (the same requests with the same
  methods, paths and bodies, and the same error messages; only the line numbers shift),
  wherever the line stands, also between the body lines of an open request; and no
  request starts on it.
\<close>

theorem comment_line_skipped:
  assumes "split 10 content = xs @ c # ys" and "isComment c"
  shows "map lineless (requests (parseOsdevFile jp content)) =
           map lineless (requests (parseLines jp (xs @ ys))) \<and>
         map message (errors (parseOsdevFile jp content)) =
           map message (errors (parseLines jp (xs @ ys))) \<and>
         int (length xs) \<notin> set (map startLine (requests (parseOsdevFile jp content)))"
proof -
  from parseLines_delete_comment [OF assms(2), of jp xs ys]
  have "map lineless (requests (parseLines jp (xs @ c # ys))) =
          map lineless (requests (parseLines jp (xs @ ys)))"
    and "map message (errors (parseLines jp (xs @ c # ys))) =
          map message (errors (parseLines jp (xs @ ys)))"
    by (simp_all add: parseLines_alt sameContent_def)
  moreover have "int (length xs) \<notin> set (map startLine (requests (parseLines jp (xs @ c # ys))))"
  proof
    assume "int (length xs) \<in> set (map startLine (requests (parseLines jp (xs @ c # ys))))"
    then have "int (length xs) \<in> set (requestLineIndices (xs @ c # ys))"
      by (simp only: parseLines_starts)
    then have "isRequestLine ((xs @ c # ys) ! nat (int (length xs)))"
      by (rule requestLineIndices_member)
    then have "isRequestLine c" by simp
    with assms(2) show False using requestLine_not_comment by blast
  qed
  ultimately show ?thesis by (simp add: parseOsdevFile_def assms(1))
qed

theorem comment_line_skipped_witness:
  "split 10 blanksDocument =
     [str ''POST /x'', [], str ''{''] @ str ''# c'' # [[], str ''}'', [], str ''GET /y''] \<and>
   isComment (str ''# c'') \<and>
   map lineless (requests (parseLines jsonCheck
      ([str ''POST /x'', [], str ''{''] @ [[], str ''}'', [], str ''GET /y'']))) =
     [(POST, str ''/x'', Some (str ''{\<newline>\<newline>}'')), (GET, str ''/y'', None)] \<and>
   map message (errors (parseLines jsonCheck
      ([str ''POST /x'', [], str ''{''] @ [[], str ''}'', [], str ''GET /y'']))) = [] \<and>
   3 \<notin> set (map startLine (requests (parseOsdevFile jsonCheck blanksDocument)))"
proof -
  have l: "split 10 blanksDocument =
     [str ''POST /x'', [], str ''{''] @ str ''# c'' # [[], str ''}'', [], str ''GET /y'']"
    by (simp add: blanks_lines)
  have c: "isComment (str ''# c'')" by (simp add: other_line_examples)
  from comment_line_skipped [OF l c, of jsonCheck] l c show ?thesis
    by (simp add: blanks_run lineless_def)
qed

subsection \<open>Blank lines\<close>

text \<open>
  Claim C8, as stated, fails on trailing blank lines: in \<open>blanksDocument\<close> line 6 is a
  blank line after the body content and before the next request line, yet the body of
  the first request ends with the closing brace, not with a newline.
\<close>

theorem trailing_blank_lines_counterexample:
  "split 10 blanksDocument =
     [str ''POST /x'', [], str ''{'', str ''# c'', [], str ''}'', [], str ''GET /y''] \<and>
   map body (requests (parseOsdevFile jsonCheck blanksDocument)) =
     [Some (str ''{\<newline>\<newline>}''), None] \<and>
   Some (str ''{\<newline>\<newline>}'') \<noteq> Some (join [str ''{'', [], str ''}'', []])"
  by (simp add: blanks_lines blanks_run) (simp add: str_def)

text \<open>
  Claim C8, amended. The body of every emitted request is the body of the block of
  lines after its request line up to its end line: without the comment lines, the blank
  lines before the first non-blank line are absorbed, the blank lines between two
  non-blank lines are preserved as they are, and the blank lines after the last
  non-blank line are not part of the body (the joined text is trimmed); a block with no
  non-blank line gives no body.
\<close>

theorem body_keeps_inner_blank_lines_only:
  "r \<in> set (requests (parseOsdevFile jp content)) \<Longrightarrow>
   body r = bodyOfLines (linesAfter (split 10 content) (startLine r) (endLine r))"
  unfolding parseOsdevFile_def by (rule parseLines_content(2))

theorem body_keeps_inner_blank_lines_only_witness:
  "\<lparr>method = POST, path = str ''/x'', body = Some (str ''{\<newline>\<newline>}''),
     startLine = 0, endLine = 6\<rparr> \<in> set (requests (parseOsdevFile jsonCheck blanksDocument)) \<and>
   linesAfter (split 10 blanksDocument) 0 6 = [[], str ''{'', str ''# c'', [], str ''}'', []] \<and>
   bodyOfLines [[], str ''{'', str ''# c'', [], str ''}'', []] = Some (str ''{\<newline>\<newline>}'')"
proof -
  let ?r = "\<lparr>method = POST, path = str ''/x'', body = Some (str ''{\<newline>\<newline>}''),
     startLine = 0, endLine = 6\<rparr>"
  have m: "?r \<in> set (requests (parseOsdevFile jsonCheck blanksDocument))"
    by (simp add: blanks_run)
  have l: "linesAfter (split 10 blanksDocument) 0 6 = [[], str ''{'', str ''# c'', [], str ''}'', []]"
    by (simp add: blanks_lines linesAfter_def)
  from body_keeps_inner_blank_lines_only [OF m] m l show ?thesis by simp
qed

section \<open>Properties of getQueryParams\<close>

subsection \<open>split, indexOf\<close>

lemma split_unfold:
  "split c s =
     takeWhile (\<lambda>x. x \<noteq> c) s #
       (case dropWhile (\<lambda>x. x \<noteq> c) s of [] \<Rightarrow> [] | x # r \<Rightarrow> split c r)"
proof (induction s)
  case Nil
  show ?case by simp
next
  case (Cons a s)
  show ?case
  proof (cases "a = c")
    case True
    then show ?thesis by simp
  next
    case False
    then show ?thesis by (subst split.simps) (simp add: Cons.IH)
  qed
qed

lemma dropWhile_absent: "c \<notin> set s \<Longrightarrow> dropWhile (\<lambda>x. x \<noteq> c) s = []"
  by (induction s) auto

lemma split_first_two:
  "split 61 pair =
     (if 61 \<in> set pair
      then keyOf pair # valueOf pair #
             (case dropWhile (\<lambda>x. x \<noteq> 61) (drop 1 (dropWhile (\<lambda>x. x \<noteq> 61) pair)) of
                [] \<Rightarrow> [] | x # r \<Rightarrow> split 61 r)
      else [keyOf pair])"
proof (cases "61 \<in> set pair")
  case True
  then have "dropWhile (\<lambda>x. x \<noteq> 61) pair \<noteq> []" by (simp add: dropWhile_eq_Nil_conv)
  then obtain x r where d: "dropWhile (\<lambda>x. x \<noteq> 61) pair = x # r"
    by (cases "dropWhile (\<lambda>x. x \<noteq> 61) pair") auto
  show ?thesis
    using True by (subst split_unfold) (simp add: d keyOf_def valueOf_def split_unfold [of 61 r])
next
  case False
  then show ?thesis by (subst split_unfold) (simp add: keyOf_def dropWhile_absent)
qed

lemma valueOf_no_eq: "61 \<notin> set pair \<Longrightarrow> valueOf pair = []"
  by (simp add: valueOf_def dropWhile_absent)

lemma uriError_eq: "(e :: uriError) = URIError"
  by (cases e) simp

lemma indexOf_takeWhile:
  "indexOf c s = (if c \<in> set s then int (length (takeWhile (\<lambda>x. x \<noteq> c) s)) else - 1)"
  by (induction s) (auto simp: Let_def)

lemma drop_indexOf:
  "c \<in> set s \<Longrightarrow> drop (nat (indexOf c s + 1)) s = drop 1 (dropWhile (\<lambda>x. x \<noteq> c) s)"
proof -
  assume "c \<in> set s"
  then have "nat (indexOf c s + 1) = length (takeWhile (\<lambda>x. x \<noteq> c) s) + 1"
    by (simp add: indexOf_takeWhile)
  moreover have "drop (length (takeWhile (\<lambda>x. x \<noteq> c) s)) s = dropWhile (\<lambda>x. x \<noteq> c) s"
    by (simp add: dropWhile_eq_drop)
  ultimately show ?thesis by (simp add: drop_Suc drop_tl)
qed

subsection \<open>the loop in terms of keys and values\<close>

lemma decodeURIComponent_Nil: "decoded [] = []" "decodable []"
  by (simp_all add: decoded_def decodable_def)

lemma setPair_alt:
  "setPair ps pair =
     (if keyOf pair = [] then Inr ps
      else if decodable (keyOf pair) \<and> decodable (valueOf pair)
      then Inr (mapSet ps (decoded (keyOf pair)) (decoded (valueOf pair)))
      else Inl URIError)"
proof (cases "61 \<in> set pair")
  case True
  show ?thesis
    by (cases "decodeURIComponent (keyOf pair)"; cases "decodeURIComponent (valueOf pair)")
       (auto simp: setPair_def split_first_two True decodable_def decoded_def uriError_eq)
next
  case False
  then show ?thesis
    by (cases "decodeURIComponent (keyOf pair)")
       (auto simp: setPair_def split_first_two valueOf_no_eq decodable_def decoded_def
             uriError_eq)
qed


lemma setPairs_alt:
  "setPairs ps pairs =
     (if list_all (\<lambda>kv. decodable (fst kv) \<and> decodable (snd kv))
          (filter (\<lambda>kv. fst kv \<noteq> []) (map (\<lambda>pair. (keyOf pair, valueOf pair)) pairs))
      then Inr (foldl (\<lambda>m kv. mapSet m (decoded (fst kv)) (decoded (snd kv))) ps
             (filter (\<lambda>kv. fst kv \<noteq> []) (map (\<lambda>pair. (keyOf pair, valueOf pair)) pairs)))
      else Inl URIError)"
proof (induction pairs arbitrary: ps)
  case Nil
  show ?case by simp
next
  case (Cons pair pairs)
  show ?case
    by (simp add: setPair_alt Cons.IH)
qed

lemma rawPairs_no_query: "63 \<notin> set p \<Longrightarrow> rawPairs p = []"
  by (simp add: rawPairs_def queryString_def dropWhile_absent keyOf_def)

lemma getQueryParams_alt:
  "getQueryParams p =
     (if list_all (\<lambda>kv. decodable (fst kv) \<and> decodable (snd kv)) (rawPairs p)
      then Inr (foldl (\<lambda>m kv. mapSet m (fst kv) (snd kv)) [] (decodedPairs p))
      else Inl URIError)"
proof (cases "63 \<in> set p")
  case True
  then have "0 \<le> indexOf 63 p" by (simp add: indexOf_takeWhile)
  with True show ?thesis
    by (simp add: getQueryParams_def drop_indexOf setPairs_alt rawPairs_def queryString_def
        decodedPairs_def foldl_map)
next
  case False
  then show ?thesis
    by (simp add: getQueryParams_def indexOf_takeWhile rawPairs_no_query decodedPairs_def)
qed

subsection \<open>the entries of the map\<close>

lemma keys_mapSet:
  "map fst (mapSet m k v) = (if k \<in> set (map fst m) then map fst m else map fst m @ [k])"
  by (induction m) force+

lemma map_of_mapSet: "map_of (mapSet m k v) = (map_of m)(k \<mapsto> v)"
  by (induction m) (auto simp: fun_eq_iff)

lemma keys_entries:
  "map fst (foldl (\<lambda>m kv. mapSet m (fst kv) (snd kv)) [] kvs) = firstOccurrences (map fst kvs)"
proof (induction kvs rule: rev_induct)
  case Nil
  show ?case by (simp add: firstOccurrences_def)
next
  case (snoc kv kvs)
  have "set (firstOccurrences (map fst kvs)) = set (map fst kvs)"
    by (simp add: firstOccurrences_def)
  with snoc show ?case
    by (auto simp: keys_mapSet firstOccurrences_def)
qed

lemma map_of_entries:
  "map_of (foldl (\<lambda>m kv. mapSet m (fst kv) (snd kv)) [] kvs) = map_of (rev kvs)"
proof (induction kvs rule: rev_induct)
  case Nil
  show ?case by simp
next
  case (snoc kv kvs)
  then show ?case by (cases kv) (simp add: map_of_mapSet)
qed

subsection \<open>escapes below 0x80\<close>

lemma hexValue_bound: "hexValue c = Some a \<Longrightarrow> a < 16"
  by (auto simp: hexValue_def split: if_splits)

lemma hexValue_separators: "hexValue 38 = None" "hexValue 61 = None" "hexValue 63 = None"
  by (simp_all add: hexValue_def)

lemma lowEscape_takeWhile:
  assumes "hexValue sep = None" "lowEscape cs"
  shows "lowEscape (takeWhile (\<lambda>x. x \<noteq> sep) cs)"
proof -
  from assms(2) obtain h l rest where cs: "cs = h # l # rest"
    by (auto simp: lowEscape_def split: list.splits)
  with assms have "h \<noteq> sep" "l \<noteq> sep"
    by (auto simp: lowEscape_def split: option.splits)
  with assms(2) cs show ?thesis by (simp add: lowEscape_def)
qed

lemma ascii_takeWhile:
  "hexValue sep = None \<Longrightarrow> asciiEscapes s \<Longrightarrow> asciiEscapes (takeWhile (\<lambda>x. x \<noteq> sep) s)"
  by (induction s) (auto simp: lowEscape_takeWhile)

lemma ascii_dropWhile: "asciiEscapes s \<Longrightarrow> asciiEscapes (dropWhile P s)"
  by (induction s) auto

lemma ascii_drop: "asciiEscapes s \<Longrightarrow> asciiEscapes (drop n s)"
proof (induction s arbitrary: n)
  case Nil
  show ?case by simp
next
  case (Cons c cs)
  then show ?case by (cases n) auto
qed

lemma ascii_split:
  assumes "hexValue sep = None"
  shows "asciiEscapes s \<Longrightarrow> seg \<in> set (split sep s) \<Longrightarrow> asciiEscapes seg"
proof (induction s arbitrary: seg rule: length_induct)
  case (1 s)
  have u: "split sep s = takeWhile (\<lambda>x. x \<noteq> sep) s #
      (case dropWhile (\<lambda>x. x \<noteq> sep) s of [] \<Rightarrow> [] | x # r \<Rightarrow> split sep r)"
    by (rule split_unfold)
  have "seg = takeWhile (\<lambda>x. x \<noteq> sep) s \<or>
      (\<exists>x r. dropWhile (\<lambda>x. x \<noteq> sep) s = x # r \<and> seg \<in> set (split sep r))"
  proof (cases "dropWhile (\<lambda>x. x \<noteq> sep) s")
    case Nil
    from u have "split sep s = [takeWhile (\<lambda>x. x \<noteq> sep) s]"
      by (simp only: Nil list.case)
    with "1.prems"(2) show ?thesis by simp
  next
    case (Cons x r)
    from u have "split sep s = takeWhile (\<lambda>x. x \<noteq> sep) s # split sep r"
      by (simp only: Cons list.case)
    with "1.prems"(2) Cons show ?thesis by auto
  qed
  then consider (first) "seg = takeWhile (\<lambda>x. x \<noteq> sep) s"
    | (later) x r where "dropWhile (\<lambda>x. x \<noteq> sep) s = x # r" "seg \<in> set (split sep r)"
    by blast
  then show ?case
  proof cases
    case first
    with assms "1.prems"(1) show ?thesis by (simp add: ascii_takeWhile)
  next
    case later
    have "length (dropWhile (\<lambda>x. x \<noteq> sep) s) \<le> length s" by (rule length_dropWhile_le)
    with later(1) have "length r < length s" by simp
    moreover have "asciiEscapes (x # r)"
      using ascii_dropWhile [OF "1.prems"(1), of "\<lambda>x. x \<noteq> sep"] later(1) by simp
    then have "asciiEscapes r" by simp
    ultimately show ?thesis using "1.IH" later(2) by blast
  qed
qed

lemma ascii_decodable: "asciiEscapes s \<Longrightarrow> decodable s"
proof (induction s rule: length_induct)
  case (1 s)
  show ?case
  proof (cases s)
    case Nil
    then show ?thesis by (simp add: decodable_def)
  next
    case (Cons c cs)
    show ?thesis
    proof (cases "c = 37")
      case False
      from "1.prems" Cons have "asciiEscapes cs" by simp
      with "1.IH" Cons have "decodable cs" by simp
      with False Cons show ?thesis
        by (auto simp: decodable_def split: sum.splits)
    next
      case True
      with "1.prems" Cons have "lowEscape cs" by simp
      then obtain h l rest a b where cs: "cs = h # l # rest"
        and h: "hexValue h = Some a" "a < 8" and l: "hexValue l = Some b"
        by (auto simp: lowEscape_def split: list.splits option.splits)
      from hexValue_bound [OF l] h(2) have lt: "16 * a + b < 128" by simp
      from "1.prems" Cons cs have "asciiEscapes rest" by simp
      with "1.IH" Cons cs have "decodable rest" by simp
      with True Cons cs h l lt show ?thesis
        by (auto simp: decodable_def split: sum.splits)
    qed
  qed
qed

lemma ascii_rawPairs:
  assumes "asciiEscapes p"
  shows "list_all (\<lambda>kv. decodable (fst kv) \<and> decodable (snd kv)) (rawPairs p)"
proof -
  have q: "asciiEscapes (queryString p)"
    unfolding queryString_def by (intro ascii_drop ascii_dropWhile assms)
  have "decodable (keyOf pair) \<and> decodable (valueOf pair)"
    if "pair \<in> set (split 38 (queryString p))" for pair
  proof -
    from ascii_split [OF hexValue_separators(1) q that] have a: "asciiEscapes pair" .
    have "asciiEscapes (keyOf pair)"
      unfolding keyOf_def by (intro ascii_takeWhile hexValue_separators a)
    moreover have "asciiEscapes (valueOf pair)"
      unfolding valueOf_def
      by (intro ascii_takeWhile ascii_drop ascii_dropWhile hexValue_separators a)
    ultimately show ?thesis by (simp add: ascii_decodable)
  qed
  then show ?thesis by (auto simp: rawPairs_def list_all_iff)
qed

lemmas query_eval = getQueryParams_def setPair_def hexValue_def utf8CodePoint_def
  isContinuation_def utf16Encode_def Let_def

subsection \<open>what the function returns\<close>


text \<open>
  What the loop computes. When \<^verbatim>\<open>getQueryParams\<close> returns, every key and value of a
  pair with a non-empty key was percent-decoded, the keys of the map are the decoded keys
  in the order of their first occurrences, and each key has the decoded value of its last
  occurrence. The value of a pair is here the text between its first and its second
  \<^verbatim>\<open>=\<close>; for a path in which no pair has a second \<^verbatim>\<open>=\<close>, that is all the text after
  the first \<^verbatim>\<open>=\<close>.
\<close>

lemma query_params_entries:
  "getQueryParams p = Inr m \<Longrightarrow>
   list_all (\<lambda>kv. decodable (fst kv) \<and> decodable (snd kv)) (rawPairs p) \<and>
   map fst m = firstOccurrences (map fst (decodedPairs p)) \<and>
   map_of m = map_of (rev (decodedPairs p))"
  by (subst (asm) getQueryParams_alt)
     (auto simp: keys_entries map_of_entries split: if_splits)

lemma valueOf_single_equals:
  "61 \<notin> set (valueAfterFirst pair) \<Longrightarrow> valueOf pair = valueAfterFirst pair"
  by (auto simp: valueOf_def valueAfterFirst_def takeWhile_eq_all_conv)

lemma query_params_single_equals:
  assumes "getQueryParams p = Inr m"
    and "\<forall>pair \<in> set (split 38 (queryString p)). 61 \<notin> set (valueAfterFirst pair)"
  shows "map fst m = firstOccurrences (map fst (pairsAtFirstEquals p)) \<and>
         map_of m = map_of (rev (pairsAtFirstEquals p))"
proof -
  have eq: "map (\<lambda>pair. (keyOf pair, valueOf pair)) (split 38 (queryString p)) =
      map (\<lambda>pair. (keyOf pair, valueAfterFirst pair)) (split 38 (queryString p))"
    by (rule map_cong) (simp_all add: valueOf_single_equals assms(2))
  have "decodedPairs p = pairsAtFirstEquals p"
    unfolding decodedPairs_def rawPairs_def pairsAtFirstEquals_def eq by (rule refl)
  with query_params_entries [OF assms(1)] show ?thesis by simp
qed

subsection \<open>Query parameters\<close>

text \<open>
  Claim C3 against the code. The claim has each pair split at its first \<^verbatim>\<open>=\<close>, so that a
  value keeps the \<^verbatim>\<open>=\<close> characters it contains. The code writes
  \<^verbatim>\<open>const [key, value] = pair.split('=')\<close>, which cuts the pair at every \<^verbatim>\<open>=\<close> and keeps
  the first two pieces: for \<^verbatim>\<open>/x?a=b=c\<close> the value of \<^verbatim>\<open>a\<close> is \<^verbatim>\<open>b\<close>, where the first
  \<^verbatim>\<open>=\<close> of the pair is followed by \<^verbatim>\<open>b=c\<close>.
\<close>

theorem query_value_cut_at_second_equals:
  "getQueryParams (str ''/x?a=b=c'') = Inr [(str ''a'', str ''b'')] \<and>
   getQueryParams (str ''/x?a=b=c'') \<noteq> Inr [(str ''a'', str ''b=c'')] \<and>
   valueAfterFirst (str ''a=b=c'') = str ''b=c''"
  by (simp add: str_def query_eval valueAfterFirst_def)

text \<open>
  Claim C9, as stated, fails in its second half: in \<^verbatim>\<open>/x?a=%ff\<close> every \<^verbatim>\<open>%\<close> is
  followed by two hexadecimal digits, and \<^verbatim>\<open>getQueryParams\<close> still raises, because the
  escaped octet is not UTF-8.
\<close>

theorem well_formed_escape_raises_counterexample:
  "wellFormedEscapes (str ''/x?a=%ff'') \<and> getQueryParams (str ''/x?a=%ff'') = Inl URIError"
  by (simp add: str_def query_eval twoHex_def)

text \<open>
  Claim C9, amended. \<^verbatim>\<open>getQueryParams\<close> is not total: on \<^verbatim>\<open>/x?a=%zz\<close> the decoding
  raises a \<^verbatim>\<open>URIError\<close>, which the function propagates. It returns normally exactly
  when \<^verbatim>\<open>decodeURIComponent\<close> accepts the key and the value of every pair with a
  non-empty key, which asks for well-formed escapes whose octets are UTF-8; in
  particular it returns normally for every path in which every \<^verbatim>\<open>%\<close> is followed by two
  hexadecimal digits that denote an octet below \<^verbatim>\<open>0x80\<close>.
\<close>

theorem query_params_raise_or_return:
  "getQueryParams (str ''/x?a=%zz'') = Inl URIError \<and>
   ((\<exists>m. getQueryParams p = Inr m) \<longleftrightarrow>
      list_all (\<lambda>kv. decodable (fst kv) \<and> decodable (snd kv)) (rawPairs p)) \<and>
   (asciiEscapes p \<longrightarrow> (\<exists>m. getQueryParams p = Inr m))"
proof (intro conjI impI)
  show "getQueryParams (str ''/x?a=%zz'') = Inl URIError"
    by (simp add: str_def query_eval)
  show "(\<exists>m. getQueryParams p = Inr m) \<longleftrightarrow>
      list_all (\<lambda>kv. decodable (fst kv) \<and> decodable (snd kv)) (rawPairs p)"
    by (subst getQueryParams_alt) simp
  assume "asciiEscapes p"
  then have "list_all (\<lambda>kv. decodable (fst kv) \<and> decodable (snd kv)) (rawPairs p)"
    by (rule ascii_rawPairs)
  then show "\<exists>m. getQueryParams p = Inr m"
    by (subst getQueryParams_alt) simp
qed

theorem query_params_raise_or_return_witness:
  "asciiEscapes (str ''/_search?q=title%3Atest'') \<and>
   (\<exists>m. getQueryParams (str ''/_search?q=title%3Atest'') = Inr m)"
proof -
  have a: "asciiEscapes (str ''/_search?q=title%3Atest'')"
    by (simp add: str_def lowEscape_def hexValue_def)
  from query_params_raise_or_return [of "str ''/_search?q=title%3Atest''"] a
  show ?thesis by blast
qed

section \<open>Properties of the formatter\<close>

lemma join_two: "join (l # m # ls) = l @ 10 # join (m # ls)"
  by simp

lemma format_unfold:
  "formatQueryResult request result prettyPrint =
     join ([requestHeader request, [],
            (case error result of
               None \<Rightarrow> statusLine result
             | Some e \<Rightarrow> if e \<noteq> [] then str ''# ERROR: '' @ e else statusLine result),
            []] @
           (case json result of
              None \<Rightarrow> if QueryResult.body result \<noteq> [] then [QueryResult.body result] else []
            | Some v \<Rightarrow>
                if truthy v \<and> prettyPrint then [stringify2 v]
                else if QueryResult.body result \<noteq> [] then [QueryResult.body result] else []))"
  by (simp add: formatQueryResult_def requestHeader_def Let_def split: option.splits)

lemma formatSpec_unfold:
  "formatSpec request result prettyPrint =
     join [requestHeader request, [],
           (case error result of
              None \<Rightarrow> statusLine result
            | Some e \<Rightarrow> str ''# ERROR: '' @ e),
           [],
           (case json result of
              None \<Rightarrow> QueryResult.body result
            | Some v \<Rightarrow> if prettyPrint then stringify2 v else QueryResult.body result)]"
  by (simp add: formatSpec_def requestHeader_def)

lemma statusLine_update [simp]:
  "statusLine (result\<lparr>json := j\<rparr>) = statusLine result"
  "statusLine (result\<lparr>QueryResult.body := b\<rparr>) = statusLine result"
  "statusLine (result\<lparr>error := e\<rparr>) = statusLine result"
  by (simp_all add: statusLine_def)

lemma falsy_iff:
  "\<not> truthy v \<longleftrightarrow>
     v = JNull \<or> v = JBool False \<or> (\<exists>negative e. v = JNumber (Finite negative 0 e)) \<or>
     v = JNumber NaN \<or> v = JString []"
proof (cases v)
  case (JNumber x)
  then show ?thesis by (cases x) auto
qed auto

lemma replicate_numeral_unfold: "replicate (numeral k) x = x # replicate (pred_numeral k) x"
  by (simp add: numeral_eq_Suc)

lemmas number_eval = numberToString_def numberOfInt_def positiveToString_def shortest.simps
  digits.simps replicate_numeral_unfold Let_def

lemma number_examples:
  "numberToString (numberOfInt 0) = str ''0''"
  "numberToString (numberOfInt 1) = str ''1''"
  "numberToString (numberOfInt 5) = str ''5''"
  "numberToString (numberOfInt 10) = str ''10''"
  "numberToString (numberOfInt 200) = str ''200''"
  "numberToString (numberOfInt 30000) = str ''30000''"
  "numberToString (Finite False 5 (- 1)) = str ''0.5''"
  "numberToString (Finite False 25 20) = str ''2.5e+21''"
  by (simp_all add: number_eval str_def)

lemma numberOfInt_case:
  "(case numberOfInt n of NaN \<Rightarrow> a | Infinity negative \<Rightarrow> g negative
    | Finite negative s e \<Rightarrow> f negative s e) = f (n < 0) (nat (abs n)) 0"
  by (simp add: numberOfInt_def)

lemma numberTruthy_int: "numberTruthy (numberOfInt n) \<longleftrightarrow> n \<noteq> 0"
  by (auto simp: numberOfInt_def)

lemmas format_eval = formatQueryResult_def formatSpec_def okResult_def searchRequest_def
  statusLine_def number_examples numberOfInt_case stringify2_def quoteJSONString_def
  quoteUnit_def isHighSurrogate_def isLowSurrogate_def Let_def

subsection \<open>The format of a result\<close>

text \<open>
  Claim C7, as stated, fails when json is present with a falsy value: for a response
  \<^verbatim>\<open>false\<close> followed by a line break, with prettyPrint true, the format ends with the
  raw text (line break included), not with the serialization \<^verbatim>\<open>false\<close> that the claim
  describes.
\<close>

theorem format_falsy_json_counterexample:
  "formatQueryResult searchRequest (okResult (str ''false\<newline>'') (Some (JBool False))) True =
     str ''# GET /_search\<newline>\<newline># '' @ [10003] @ str '' 200 OK (10ms)\<newline>\<newline>false\<newline>'' \<and>
   formatSpec searchRequest (okResult (str ''false\<newline>'') (Some (JBool False))) True =
     str ''# GET /_search\<newline>\<newline># '' @ [10003] @ str '' 200 OK (10ms)\<newline>\<newline>false''"
  by (simp add: format_eval str_def)

text \<open>
  Claim C7, amended. For every request, result and prettyPrint flag, the format is, in
  this order: the line \<^verbatim>\<open># \<close>, method, space, path; a line break and an empty line; the
  status line, which is \<^verbatim>\<open># ERROR: \<close> and the message when error is set and is not the
  empty string, and else \<^verbatim>\<open># \<close>, the glyph (U+2713 for success, U+2717 otherwise), the
  status code, the status message and the duration as \<^verbatim>\<open>(\<close>\<open>n\<close>\<^verbatim>\<open>ms)\<close>; a line break;
  then the body section: a line break and the serialization of json with an indentation
  of two spaces when json is present with a truthy value and prettyPrint is true; and
  otherwise a line break and the raw text of the response when that text is not empty,
  and nothing when it is empty. This is the format that the claim describes whenever the
  error is not the empty string, json is truthy where it is serialized, and the raw text
  is not empty where it is the body.
\<close>

theorem format_as_specified:
  "formatQueryResult request result prettyPrint =
     (let glyphLine =
            str ''# '' @ [if success result then 10003 else 10007] @ str '' '' @
            numberToString (statusCode result) @ str '' '' @ statusMessage result @
            str '' ('' @ numberToString (durationMs result) @ str ''ms)'';
          status =
            (case error result of
               None \<Rightarrow> glyphLine
             | Some e \<Rightarrow> if e = [] then glyphLine else str ''# ERROR: '' @ e);
          rawSection =
            (if QueryResult.body result = [] then [] else 10 # QueryResult.body result);
          bodySection =
            (case json result of
               None \<Rightarrow> rawSection
             | Some v \<Rightarrow> if truthy v \<and> prettyPrint then 10 # stringify2 v else rawSection)
      in str ''# '' @ methodName (method request) @ str '' '' @ path request @ [10, 10] @
         status @ [10] @ bodySection) \<and>
   (error result \<noteq> Some [] \<longrightarrow>
    (\<forall>v. json result = Some v \<and> prettyPrint \<longrightarrow> truthy v) \<longrightarrow>
    (json result = None \<or> \<not> prettyPrint \<longrightarrow> QueryResult.body result \<noteq> []) \<longrightarrow>
      formatQueryResult request result prettyPrint = formatSpec request result prettyPrint)"
proof
  show "formatQueryResult request result prettyPrint =
     (let glyphLine =
            str ''# '' @ [if success result then 10003 else 10007] @ str '' '' @
            numberToString (statusCode result) @ str '' '' @ statusMessage result @
            str '' ('' @ numberToString (durationMs result) @ str ''ms)'';
          status =
            (case error result of
               None \<Rightarrow> glyphLine
             | Some e \<Rightarrow> if e = [] then glyphLine else str ''# ERROR: '' @ e);
          rawSection =
            (if QueryResult.body result = [] then [] else 10 # QueryResult.body result);
          bodySection =
            (case json result of
               None \<Rightarrow> rawSection
             | Some v \<Rightarrow> if truthy v \<and> prettyPrint then 10 # stringify2 v else rawSection)
      in str ''# '' @ methodName (method request) @ str '' '' @ path request @ [10, 10] @
         status @ [10] @ bodySection)"
    by (cases "json result"; cases "error result")
       (simp_all add: format_unfold requestHeader_def statusLine_def Let_def)
  show "error result \<noteq> Some [] \<longrightarrow>
    (\<forall>v. json result = Some v \<and> prettyPrint \<longrightarrow> truthy v) \<longrightarrow>
    (json result = None \<or> \<not> prettyPrint \<longrightarrow> QueryResult.body result \<noteq> []) \<longrightarrow>
      formatQueryResult request result prettyPrint = formatSpec request result prettyPrint"
    by (cases "json result"; cases "error result")
       (auto simp: format_unfold formatSpec_unfold)
qed

text \<open>
  The theorem on five results: a response \<^verbatim>\<open>{"a":1}\<close> with and without prettyPrint, the
  result of a failed request, a response \<^verbatim>\<open>0\<close> with prettyPrint, and a response
  \<^verbatim>\<open>[0.5,2.5e21]\<close> with prettyPrint.
\<close>

theorem format_as_specified_witness:
  \<open>formatQueryResult searchRequest
     (okResult (str ''{"a":1}'') (Some (JObject [(str ''a'', JNumber (numberOfInt 1))]))) True =
     str ''# GET /_search\<newline>\<newline># '' @ [10003] @
     str '' 200 OK (10ms)\<newline>\<newline>{\<newline>  "a": 1\<newline>}'' \<and>
   formatQueryResult searchRequest
     (okResult (str ''{"a":1}'') (Some (JObject [(str ''a'', JNumber (numberOfInt 1))]))) False =
     str ''# GET /_search\<newline>\<newline># '' @ [10003] @
     str '' 200 OK (10ms)\<newline>\<newline>{"a":1}'' \<and>
   formatQueryResult searchRequest (errorResult 5 (str ''connect ECONNREFUSED'')) True =
     str ''# GET /_search\<newline>\<newline># ERROR: connect ECONNREFUSED\<newline>'' \<and>
   formatQueryResult searchRequest (okResult (str ''0'') (Some (JNumber (numberOfInt 0)))) True =
     str ''# GET /_search\<newline>\<newline># '' @ [10003] @ str '' 200 OK (10ms)\<newline>\<newline>0'' \<and>
   formatQueryResult searchRequest
     (okResult (str ''[0.5,2.5e21]'')
        (Some (JArray [JNumber (Finite False 5 (- 1)), JNumber (Finite False 25 20)]))) True =
     str ''# GET /_search\<newline>\<newline># '' @ [10003] @
     str '' 200 OK (10ms)\<newline>\<newline>[\<newline>  0.5,\<newline>  2.5e+21\<newline>]'' \<and>
   formatQueryResult searchRequest
     (okResult (str ''{"a":1}'') (Some (JObject [(str ''a'', JNumber (numberOfInt 1))]))) True =
   formatSpec searchRequest
     (okResult (str ''{"a":1}'') (Some (JObject [(str ''a'', JNumber (numberOfInt 1))]))) True\<close>
proof -
  let ?r = \<open>okResult (str ''{"a":1}'') (Some (JObject [(str ''a'', JNumber (numberOfInt 1))]))\<close>
  let ?z = \<open>okResult (str ''0'') (Some (JNumber (numberOfInt 0)))\<close>
  let ?f = \<open>errorResult 5 (str ''connect ECONNREFUSED'')\<close>
  let ?n = \<open>okResult (str ''[0.5,2.5e21]'')
        (Some (JArray [JNumber (Finite False 5 (- 1)), JNumber (Finite False 25 20)]))\<close>
  have 1: \<open>formatQueryResult searchRequest ?r True =
     str ''# GET /_search\<newline>\<newline># '' @ [10003] @
     str '' 200 OK (10ms)\<newline>\<newline>{\<newline>  "a": 1\<newline>}''\<close>
    by (subst format_as_specified [of searchRequest ?r True, THEN conjunct1])
       (simp add: okResult_def searchRequest_def number_examples numberOfInt_case
          stringify2_def quoteJSONString_def quoteUnit_def isHighSurrogate_def
          isLowSurrogate_def str_def)
  have 2: \<open>formatQueryResult searchRequest ?r False =
     str ''# GET /_search\<newline>\<newline># '' @ [10003] @
     str '' 200 OK (10ms)\<newline>\<newline>{"a":1}''\<close>
    by (subst format_as_specified [of searchRequest ?r False, THEN conjunct1])
       (simp add: okResult_def searchRequest_def number_examples str_def)
  have 3: \<open>formatQueryResult searchRequest ?f True =
     str ''# GET /_search\<newline>\<newline># ERROR: connect ECONNREFUSED\<newline>''\<close>
    by (subst format_as_specified [of searchRequest ?f True, THEN conjunct1])
       (simp add: errorResult_def searchRequest_def str_def)
  have 4: \<open>formatQueryResult searchRequest ?z True =
     str ''# GET /_search\<newline>\<newline># '' @ [10003] @ str '' 200 OK (10ms)\<newline>\<newline>0''\<close>
    by (subst format_as_specified [of searchRequest ?z True, THEN conjunct1])
       (simp add: okResult_def searchRequest_def number_examples numberTruthy_int str_def)
  have 6: \<open>formatQueryResult searchRequest ?n True =
     str ''# GET /_search\<newline>\<newline># '' @ [10003] @
     str '' 200 OK (10ms)\<newline>\<newline>[\<newline>  0.5,\<newline>  2.5e+21\<newline>]''\<close>
    by (subst format_as_specified [of searchRequest ?n True, THEN conjunct1])
       (simp add: okResult_def searchRequest_def number_examples stringify2_def str_def)
  have e: "error ?r \<noteq> Some []" by (simp add: okResult_def)
  have j: "\<forall>v. json ?r = Some v \<and> True \<longrightarrow> truthy v" by (simp add: okResult_def)
  have b: "json ?r = None \<or> \<not> True \<longrightarrow> QueryResult.body ?r \<noteq> []"
    by (simp add: okResult_def)
  from format_as_specified [of searchRequest ?r True] e j b
  have 5: "formatQueryResult searchRequest ?r True = formatSpec searchRequest ?r True"
    by blast
  from 1 2 3 4 5 6 show ?thesis by blast
qed

text \<open>
  Claim C10. A json value is falsy exactly when it is \<^verbatim>\<open>null\<close>, \<^verbatim>\<open>false\<close>, a Number that
  is zero (\<^verbatim>\<open>0\<close> or \<^verbatim>\<open>-0\<close>) or \<^verbatim>\<open>NaN\<close> (which \<^verbatim>\<open>JSON.parse\<close> never returns), or the
  empty string. For a falsy json value the format is the one of the same result without
  json: with prettyPrint true and no error, a non-empty raw text is emitted as the body,
  not the serialization; and with an empty raw text and no error no body section is
  emitted, the output ending with the line break after the status line.
\<close>

theorem falsy_json_treated_as_absent:
  "(\<not> truthy v \<longleftrightarrow>
      v = JNull \<or> v = JBool False \<or> (\<exists>negative e. v = JNumber (Finite negative 0 e)) \<or>
      v = JNumber NaN \<or> v = JString []) \<and>
   (\<not> truthy v \<longrightarrow>
      formatQueryResult request (result\<lparr>json := Some v\<rparr>) prettyPrint =
        formatQueryResult request (result\<lparr>json := None\<rparr>) prettyPrint) \<and>
   (\<not> truthy v \<longrightarrow> error result = None \<longrightarrow> QueryResult.body result \<noteq> [] \<longrightarrow>
      formatQueryResult request (result\<lparr>json := Some v\<rparr>) True =
        join [requestHeader request, [], statusLine result, [], QueryResult.body result]) \<and>
   (\<not> truthy v \<longrightarrow> error result = None \<longrightarrow> QueryResult.body result = [] \<longrightarrow>
      formatQueryResult request (result\<lparr>json := Some v\<rparr>) prettyPrint =
        join [requestHeader request, [], statusLine result, []])"
proof (intro conjI)
  show "\<not> truthy v \<longleftrightarrow>
      v = JNull \<or> v = JBool False \<or> (\<exists>negative e. v = JNumber (Finite negative 0 e)) \<or>
      v = JNumber NaN \<or> v = JString []"
    by (rule falsy_iff)
qed (cases "error result"; simp add: format_unfold)+

theorem falsy_json_treated_as_absent_witness:
  "\<not> truthy (JNumber (numberOfInt 0)) \<and>
   formatQueryResult searchRequest
     ((okResult (str '' 0'') None)\<lparr>json := Some (JNumber (numberOfInt 0))\<rparr>) True =
     join [requestHeader searchRequest, [], statusLine (okResult (str '' 0'') None), [], str '' 0''] \<and>
   formatQueryResult searchRequest ((okResult [] None)\<lparr>json := Some (JNumber (numberOfInt 0))\<rparr>) True =
     join [requestHeader searchRequest, [], statusLine (okResult [] None), []]"
proof -
  let ?z = "JNumber (numberOfInt 0)"
  have t: "\<not> truthy ?z" by (simp add: numberTruthy_int)
  have e: "error (okResult b None) = None" for b by (simp add: okResult_def)
  have b: "QueryResult.body (okResult (str '' 0'') None) \<noteq> []"
    "QueryResult.body (okResult [] None) = []"
    by (simp_all add: okResult_def str_def)
  have bb: "QueryResult.body (okResult (str '' 0'') None) = str '' 0''"
    by (simp add: okResult_def)
  from falsy_json_treated_as_absent [of ?z searchRequest "okResult (str '' 0'') None" True]
    t e [of "str '' 0''"] b(1)
  have 1: "formatQueryResult searchRequest ((okResult (str '' 0'') None)\<lparr>json := Some ?z\<rparr>) True =
     join [requestHeader searchRequest, [], statusLine (okResult (str '' 0'') None), [],
           QueryResult.body (okResult (str '' 0'') None)]"
    by blast
  from falsy_json_treated_as_absent [of ?z searchRequest "okResult [] None" True]
    t e [of "[]"] b(2)
  have 2: "formatQueryResult searchRequest ((okResult [] None)\<lparr>json := Some ?z\<rparr>) True =
     join [requestHeader searchRequest, [], statusLine (okResult [] None), []]"
    by blast
  from t 1 [unfolded bb] 2 show ?thesis by blast
qed

section \<open>Properties of the executor\<close>

lemma errorResult_fields:
  "success (errorResult d msg) = False" "statusCode (errorResult d msg) = numberOfInt 0"
  "error (errorResult d msg) = Some msg"
  by (simp_all add: errorResult_def)

lemma getAuthHeaders_basic_missing:
  assumes "authType (connection options) = Basic"
    and "\<not> present (username (connection options)) \<or> \<not> present (password options)"
  shows "getAuthHeaders env m u b options =
           Rejected (ErrorObject (str ''Username and password required for Basic Auth''))"
  using assms
  by (auto simp: getAuthHeaders_def present_def Let_def split: option.splits)

lemma getAuthHeaders_iam_missing:
  assumes "authType (connection options) = AwsIam"
    and "\<not> present (awsRegion (connection options))"
  shows "getAuthHeaders env m u b options =
           Rejected (ErrorObject (str ''AWS region required for IAM Auth''))"
  using assms
  by (auto simp: getAuthHeaders_def present_def Let_def split: option.splits)

lemma prepare_timeout:
  "prepareRequest env req options = Fulfilled (h, ro) \<Longrightarrow>
   RequestOptions.timeout ro = effectiveTimeout options"
  by (auto simp: prepareRequest_def Let_def split: sum.splits promise.splits if_splits)

lemma prepare_pending:
  "prepareRequest env req options = Pending \<Longrightarrow>
   getAuthHeaders env (methodName (ParsedRequest.method req))
     (buildRequestUrl (url (connection options)) (ParsedRequest.path req))
     (ParsedRequest.body req) options = Pending"
  by (auto simp: prepareRequest_def Let_def split: sum.splits promise.splits if_splits)

lemma dispatch_result:
  "dispatch env h ro b = Fulfilled r \<Longrightarrow>
   error r = None \<or> (\<exists>msg. r = errorResult (elapsed env) msg)"
  by (cases "httpRequest env h ro (if present b then b else None)")
     (auto simp: dispatch_def Let_def errorResult_def)

lemma dispatch_pending:
  "dispatch env h ro b = Pending \<Longrightarrow>
   httpRequest env h ro (if present b then b else None) = ResponseAborted \<or>
   httpRequest env h ro (if present b then b else None) = NoEvent"
  by (cases "httpRequest env h ro (if present b then b else None)")
     (auto simp: dispatch_def Let_def)

lemma execute_not_rejected: "executeRequest env req options \<noteq> Rejected t"
  by (simp add: executeRequest_def split: promise.splits)

lemma execute_result:
  assumes "executeRequest env req options = Fulfilled r"
  shows "error r = None \<or> (\<exists>msg. r = errorResult (elapsed env) msg)"
proof (cases "tryBlock env req options")
  case (Fulfilled r')
  with assms have "r' = r" by (simp add: executeRequest_def)
  with Fulfilled obtain h ro where "dispatch env h ro (ParsedRequest.body req) = Fulfilled r"
    by (auto simp: tryBlock_def split: promise.splits)
  then show ?thesis by (rule dispatch_result)
next
  case (Rejected t)
  with assms show ?thesis by (auto simp: executeRequest_def)
next
  case Pending
  with assms show ?thesis by (simp add: executeRequest_def)
qed

lemma execute_pending:
  assumes "executeRequest env req options = Pending"
  shows "getAuthHeaders env (methodName (ParsedRequest.method req))
           (buildRequestUrl (url (connection options)) (ParsedRequest.path req))
           (ParsedRequest.body req) options = Pending \<or>
         (\<exists>h ro. prepareRequest env req options = Fulfilled (h, ro) \<and>
            (httpRequest env h ro
               (if present (ParsedRequest.body req) then ParsedRequest.body req else None) =
               ResponseAborted \<or>
             httpRequest env h ro
               (if present (ParsedRequest.body req) then ParsedRequest.body req else None) =
               NoEvent))"
proof -
  from assms have t: "tryBlock env req options = Pending"
    by (simp add: executeRequest_def split: promise.splits)
  show ?thesis
  proof (cases "prepareRequest env req options")
    case (Fulfilled p)
    obtain h ro where p: "p = (h, ro)" by (cases p)
    with t Fulfilled have "dispatch env h ro (ParsedRequest.body req) = Pending"
      by (simp add: tryBlock_def)
    from dispatch_pending [OF this] Fulfilled p show ?thesis by blast
  next
    case (Rejected x)
    with t show ?thesis by (simp add: tryBlock_def)
  next
    case Pending
    then show ?thesis by (simp add: prepare_pending)
  qed
qed

lemma execute_thrown:
  "tryBlock env req options = Rejected t \<Longrightarrow>
   executeRequest env req options = Fulfilled (errorResult (elapsed env) (thrownMessage t))"
  by (simp add: executeRequest_def)

lemma prepare_thrown:
  "prepareRequest env req options = Rejected t \<Longrightarrow>
   executeRequest env req options = Fulfilled (errorResult (elapsed env) (thrownMessage t))"
  by (simp add: executeRequest_def tryBlock_def)

lemma execute_response_end:
  assumes "prepareRequest env req options = Fulfilled (h, ro)"
    and "httpRequest env h ro
           (if present (ParsedRequest.body req) then ParsedRequest.body req else None) =
           ResponseEnd code msg payload hs"
  shows "\<exists>r. executeRequest env req options = Fulfilled r \<and> error r = None \<and>
             QueryResult.body r = payload \<and>
             statusCode r = numberOfInt (case code of None \<Rightarrow> 0 | Some n \<Rightarrow> n) \<and>
             (success r \<longleftrightarrow> (\<exists>n. code = Some n \<and> 200 \<le> n \<and> n < 300))"
  using assms
  by (cases code) (simp_all add: executeRequest_def tryBlock_def dispatch_def Let_def)

lemma silent_prepare:
  "prepareRequest silentEnv searchRequest (localOptions Basic (Some (str ''secret'')) t) =
     Fulfilled (False, localRequestOptions (case t of None \<Rightarrow> DEFAULT_TIMEOUT | Some x \<Rightarrow> x))"
  by (simp add: prepareRequest_def silentEnv_def localOptions_def searchRequest_def
      getAuthHeaders_def createBasicAuthHeaders_def generateBasicAuthHeader_def
      effectiveTimeout_def localRequestOptions_def Let_def str_def)

lemma silent_transport:
  "httpRequest silentEnv h (localRequestOptions t) b =
     (if numberTruthy t then TimeoutEvent else NoEvent)"
  by (simp add: silentEnv_def localRequestOptions_def)

subsection \<open>Failures are results\<close>

text \<open>
  Claim C1, as stated, fails: \<^verbatim>\<open>executeRequest\<close> does not return a result for every
  options value. With a timeout of \<^verbatim>\<open>0\<close>, which arms no timer, and a target that accepts
  the request and never answers, none of the handlers that settle the promise ever runs,
  and the call never returns.
\<close>

theorem execute_never_returns_counterexample:
  "executeRequest silentEnv searchRequest
     (localOptions Basic (Some (str ''secret'')) (Some (numberOfInt 0))) = Pending"
  unfolding executeRequest_def tryBlock_def silent_prepare
  by (simp add: dispatch_def silent_transport numberTruthy_int)

text \<open>
  Claim C1, amended. For every environment, request and options, \<^verbatim>\<open>executeRequest\<close>
  throws nothing: its promise is never rejected. When it returns, the result has no
  error or is the failure result (error set, success false, status code 0). It returns
  whenever the authentication headers are resolved or refused and the transport throws
  or runs one of the three handlers (end of the response, error of the request, timeout
  of the request). Every value thrown inside the \<^verbatim>\<open>try\<close> block is captured as the failure
  result: an invalid URL, a failed resolution of the authentication headers (Basic Auth
  without user name or password, IAM Auth without region), a CA file that cannot be
  read, a transport that throws; and so are the \<^verbatim>\<open>error\<close> and the \<^verbatim>\<open>timeout\<close> event of
  the request. A response that ends gives a result without error, with the status code
  and the body of the response. When the target never answers and no timer is armed, the
  call never returns.
\<close>

theorem execute_captures_failures:
  "(\<forall>t. executeRequest env req options \<noteq> Rejected t) \<and>
   (\<forall>r. executeRequest env req options = Fulfilled r \<longrightarrow>
        error r = None \<or> (\<exists>msg. r = errorResult (elapsed env) msg)) \<and>
   (executeRequest env req options = Pending \<longrightarrow>
      getAuthHeaders env (methodName (ParsedRequest.method req))
        (buildRequestUrl (url (connection options)) (ParsedRequest.path req))
        (ParsedRequest.body req) options = Pending \<or>
      (\<exists>h ro. prepareRequest env req options = Fulfilled (h, ro) \<and>
         (httpRequest env h ro
            (if present (ParsedRequest.body req) then ParsedRequest.body req else None) =
            ResponseAborted \<or>
          httpRequest env h ro
            (if present (ParsedRequest.body req) then ParsedRequest.body req else None) =
            NoEvent))) \<and>
   (\<forall>d msg. success (errorResult d msg) = False \<and>
        statusCode (errorResult d msg) = numberOfInt 0 \<and>
        error (errorResult d msg) = Some msg) \<and>
   (\<forall>t. tryBlock env req options = Rejected t \<longrightarrow>
        executeRequest env req options =
          Fulfilled (errorResult (elapsed env) (thrownMessage t))) \<and>
   (\<forall>t. newURL env (buildRequestUrl (url (connection options)) (ParsedRequest.path req)) = Inl t \<longrightarrow>
        executeRequest env req options =
          Fulfilled (errorResult (elapsed env) (thrownMessage t))) \<and>
   (\<forall>pu. newURL env (buildRequestUrl (url (connection options)) (ParsedRequest.path req)) = Inr pu \<longrightarrow>
        authType (connection options) = Basic \<longrightarrow>
        \<not> present (username (connection options)) \<or> \<not> present (password options) \<longrightarrow>
        executeRequest env req options =
          Fulfilled (errorResult (elapsed env)
                       (str ''Username and password required for Basic Auth''))) \<and>
   (\<forall>pu. newURL env (buildRequestUrl (url (connection options)) (ParsedRequest.path req)) = Inr pu \<longrightarrow>
        authType (connection options) = AwsIam \<longrightarrow>
        \<not> present (awsRegion (connection options)) \<longrightarrow>
        executeRequest env req options =
          Fulfilled (errorResult (elapsed env) (str ''AWS region required for IAM Auth''))) \<and>
   (\<forall>pu hs p t.
        newURL env (buildRequestUrl (url (connection options)) (ParsedRequest.path req)) = Inr pu \<longrightarrow>
        protocol pu = str ''https:'' \<longrightarrow>
        getAuthHeaders env (methodName (ParsedRequest.method req))
          (buildRequestUrl (url (connection options)) (ParsedRequest.path req))
          (ParsedRequest.body req) options = Fulfilled hs \<longrightarrow>
        caCertPath (connection options) = Some p \<longrightarrow> p \<noteq> [] \<longrightarrow>
        readFileSync env p = Inl t \<longrightarrow>
        executeRequest env req options =
          Fulfilled (errorResult (elapsed env)
                       (str ''Failed to read CA certificate: '' @ thrownMessage t))) \<and>
   (\<forall>h ro t. prepareRequest env req options = Fulfilled (h, ro) \<longrightarrow>
        httpRequest env h ro
          (if present (ParsedRequest.body req) then ParsedRequest.body req else None) =
          RequestThrows t \<longrightarrow>
        executeRequest env req options =
          Fulfilled (errorResult (elapsed env) (thrownMessage t))) \<and>
   (\<forall>h ro m. prepareRequest env req options = Fulfilled (h, ro) \<longrightarrow>
        httpRequest env h ro
          (if present (ParsedRequest.body req) then ParsedRequest.body req else None) =
          ErrorEvent m \<longrightarrow>
        executeRequest env req options = Fulfilled (errorResult (elapsed env) m)) \<and>
   (\<forall>h ro. prepareRequest env req options = Fulfilled (h, ro) \<longrightarrow>
        httpRequest env h ro
          (if present (ParsedRequest.body req) then ParsedRequest.body req else None) =
          TimeoutEvent \<longrightarrow>
        executeRequest env req options =
          Fulfilled (errorResult (elapsed env)
                       (str ''Request timed out after '' @
                        numberToString (effectiveTimeout options) @ str ''ms''))) \<and>
   (\<forall>h ro code msg payload hs. prepareRequest env req options = Fulfilled (h, ro) \<longrightarrow>
        httpRequest env h ro
          (if present (ParsedRequest.body req) then ParsedRequest.body req else None) =
          ResponseEnd code msg payload hs \<longrightarrow>
        (\<exists>r. executeRequest env req options = Fulfilled r \<and> error r = None \<and>
             QueryResult.body r = payload \<and>
             statusCode r = numberOfInt (case code of None \<Rightarrow> 0 | Some n \<Rightarrow> n) \<and>
             (success r \<longleftrightarrow> (\<exists>n. code = Some n \<and> 200 \<le> n \<and> n < 300)))) \<and>
   (\<forall>h ro. prepareRequest env req options = Fulfilled (h, ro) \<longrightarrow>
        httpRequest env h ro
          (if present (ParsedRequest.body req) then ParsedRequest.body req else None) =
          NoEvent \<longrightarrow>
        executeRequest env req options = Pending)"
proof (intro conjI allI impI)
  let ?u = "buildRequestUrl (url (connection options)) (ParsedRequest.path req)"
  let ?b = "if present (ParsedRequest.body req) then ParsedRequest.body req else None"
  show "executeRequest env req options \<noteq> Rejected t" for t
    by (rule execute_not_rejected)
  show "error r = None \<or> (\<exists>msg. r = errorResult (elapsed env) msg)"
    if "executeRequest env req options = Fulfilled r" for r
    using that by (rule execute_result)
  show "getAuthHeaders env (methodName (ParsedRequest.method req)) ?u
          (ParsedRequest.body req) options = Pending \<or>
        (\<exists>h ro. prepareRequest env req options = Fulfilled (h, ro) \<and>
           (httpRequest env h ro ?b = ResponseAborted \<or> httpRequest env h ro ?b = NoEvent))"
    if "executeRequest env req options = Pending"
    using that by (rule execute_pending)
  show "success (errorResult d msg) = False" "statusCode (errorResult d msg) = numberOfInt 0"
    "error (errorResult d msg) = Some msg" for d msg
    by (simp_all add: errorResult_fields)
  show "executeRequest env req options = Fulfilled (errorResult (elapsed env) (thrownMessage t))"
    if "tryBlock env req options = Rejected t" for t
    using that by (rule execute_thrown)
  show "executeRequest env req options = Fulfilled (errorResult (elapsed env) (thrownMessage t))"
    if "newURL env ?u = Inl t" for t
  proof -
    from that have "prepareRequest env req options = Rejected t"
      by (simp add: prepareRequest_def Let_def)
    then show ?thesis by (rule prepare_thrown)
  qed
  show "executeRequest env req options =
          Fulfilled (errorResult (elapsed env)
                       (str ''Username and password required for Basic Auth''))"
    if "newURL env ?u = Inr pu" "authType (connection options) = Basic"
      "\<not> present (username (connection options)) \<or> \<not> present (password options)" for pu
  proof -
    from that have "prepareRequest env req options =
        Rejected (ErrorObject (str ''Username and password required for Basic Auth''))"
      by (simp add: prepareRequest_def Let_def getAuthHeaders_basic_missing)
    from prepare_thrown [OF this] show ?thesis by (simp add: thrownMessage_def)
  qed
  show "executeRequest env req options =
          Fulfilled (errorResult (elapsed env) (str ''AWS region required for IAM Auth''))"
    if "newURL env ?u = Inr pu" "authType (connection options) = AwsIam"
      "\<not> present (awsRegion (connection options))" for pu
  proof -
    from that have "prepareRequest env req options =
        Rejected (ErrorObject (str ''AWS region required for IAM Auth''))"
      by (simp add: prepareRequest_def Let_def getAuthHeaders_iam_missing)
    from prepare_thrown [OF this] show ?thesis by (simp add: thrownMessage_def)
  qed
  show "executeRequest env req options =
          Fulfilled (errorResult (elapsed env)
                       (str ''Failed to read CA certificate: '' @ thrownMessage t))"
    if "newURL env ?u = Inr pu" "protocol pu = str ''https:''"
      "getAuthHeaders env (methodName (ParsedRequest.method req)) ?u
          (ParsedRequest.body req) options = Fulfilled hs"
      "caCertPath (connection options) = Some p" "p \<noteq> []" "readFileSync env p = Inl t"
    for pu hs p t
  proof -
    from that have "prepareRequest env req options =
        Rejected (ErrorObject (str ''Failed to read CA certificate: '' @ thrownMessage t))"
      by (simp add: prepareRequest_def Let_def createHttpsAgent_def)
    from prepare_thrown [OF this] show ?thesis by (simp add: thrownMessage_def)
  qed
  show "executeRequest env req options = Fulfilled (errorResult (elapsed env) (thrownMessage t))"
    if "prepareRequest env req options = Fulfilled (h, ro)"
      "httpRequest env h ro ?b = RequestThrows t" for h ro t
    using that by (simp add: executeRequest_def tryBlock_def dispatch_def)
  show "executeRequest env req options = Fulfilled (errorResult (elapsed env) m)"
    if "prepareRequest env req options = Fulfilled (h, ro)"
      "httpRequest env h ro ?b = ErrorEvent m" for h ro m
    using that by (simp add: executeRequest_def tryBlock_def dispatch_def)
  show "executeRequest env req options =
          Fulfilled (errorResult (elapsed env)
                       (str ''Request timed out after '' @
                        numberToString (effectiveTimeout options) @ str ''ms''))"
    if "prepareRequest env req options = Fulfilled (h, ro)"
      "httpRequest env h ro ?b = TimeoutEvent" for h ro
    using that prepare_timeout [OF that(1)]
    by (simp add: executeRequest_def tryBlock_def dispatch_def)
  show "\<exists>r. executeRequest env req options = Fulfilled r \<and> error r = None \<and>
             QueryResult.body r = payload \<and>
             statusCode r = numberOfInt (case code of None \<Rightarrow> 0 | Some n \<Rightarrow> n) \<and>
             (success r \<longleftrightarrow> (\<exists>n. code = Some n \<and> 200 \<le> n \<and> n < 300))"
    if "prepareRequest env req options = Fulfilled (h, ro)"
      "httpRequest env h ro ?b = ResponseEnd code msg payload hs" for h ro code msg payload hs
    using that by (rule execute_response_end)
  show "executeRequest env req options = Pending"
    if "prepareRequest env req options = Fulfilled (h, ro)"
      "httpRequest env h ro ?b = NoEvent" for h ro
    using that by (simp add: executeRequest_def tryBlock_def dispatch_def)
qed

text \<open>
  The theorem on the silent target: Basic Auth without a password is refused before
  anything is sent, and with a password the request times out after the default
  30000 ms.
\<close>

theorem execute_captures_failures_witness:
  "executeRequest silentEnv searchRequest (localOptions Basic None None) =
     Fulfilled (errorResult 30000 (str ''Username and password required for Basic Auth'')) \<and>
   executeRequest silentEnv searchRequest (localOptions Basic (Some (str ''secret'')) None) =
     Fulfilled (errorResult 30000 (str ''Request timed out after 30000ms''))"
proof
  let ?u = "\<lambda>options. buildRequestUrl (url (connection options)) (ParsedRequest.path searchRequest)"
  let ?pu = "\<lparr>protocol = str ''http:'', hostname = str ''localhost'',
              port = str ''9200'', pathname = str ''/_search'', search = []\<rparr>"
  have e: "elapsed silentEnv = 30000" by (simp add: elapsed_def silentEnv_def)
  have u: "newURL silentEnv x = Inr ?pu" for x by (simp add: silentEnv_def)
  show "executeRequest silentEnv searchRequest (localOptions Basic None None) =
     Fulfilled (errorResult 30000 (str ''Username and password required for Basic Auth''))"
  proof -
    let ?o = "localOptions Basic None None"
    have a: "authType (connection ?o) = Basic" by (simp add: localOptions_def)
    have p: "\<not> present (username (connection ?o)) \<or> \<not> present (password ?o)"
      by (simp add: localOptions_def present_def)
    from execute_captures_failures [of silentEnv searchRequest ?o]
    have "\<forall>pu. newURL silentEnv (?u ?o) = Inr pu \<longrightarrow>
        authType (connection ?o) = Basic \<longrightarrow>
        \<not> present (username (connection ?o)) \<or> \<not> present (password ?o) \<longrightarrow>
        executeRequest silentEnv searchRequest ?o =
          Fulfilled (errorResult (elapsed silentEnv)
                       (str ''Username and password required for Basic Auth''))"
      by (elim conjE) assumption
    with u a p show ?thesis unfolding e by blast
  qed
  show "executeRequest silentEnv searchRequest (localOptions Basic (Some (str ''secret'')) None) =
     Fulfilled (errorResult 30000 (str ''Request timed out after 30000ms''))"
  proof -
    let ?o = "localOptions Basic (Some (str ''secret'')) None"
    have p: "prepareRequest silentEnv searchRequest ?o =
        Fulfilled (False, localRequestOptions DEFAULT_TIMEOUT)"
      using silent_prepare [of None] by simp
    have t: "httpRequest silentEnv False (localRequestOptions DEFAULT_TIMEOUT)
          (if present (ParsedRequest.body searchRequest) then ParsedRequest.body searchRequest
           else None) = TimeoutEvent"
      by (simp add: silent_transport DEFAULT_TIMEOUT_def numberTruthy_int)
    have n: "str ''Request timed out after '' @ numberToString (effectiveTimeout ?o) @ str ''ms'' =
        str ''Request timed out after 30000ms''"
      by (simp add: effectiveTimeout_def localOptions_def DEFAULT_TIMEOUT_def number_examples
          str_def)
    from execute_captures_failures [of silentEnv searchRequest ?o]
    have "\<forall>h ro. prepareRequest silentEnv searchRequest ?o = Fulfilled (h, ro) \<longrightarrow>
        httpRequest silentEnv h ro
          (if present (ParsedRequest.body searchRequest) then ParsedRequest.body searchRequest
           else None) = TimeoutEvent \<longrightarrow>
        executeRequest silentEnv searchRequest ?o =
          Fulfilled (errorResult (elapsed silentEnv)
                       (str ''Request timed out after '' @
                        numberToString (effectiveTimeout ?o) @ str ''ms''))"
      by (elim conjE) assumption
    with p t show ?thesis unfolding e n by blast
  qed
qed

end
